theory Spec2Isabelle
  imports Complex_Main "HOL-Library.Sublist" "HOL-Library.Multiset"
begin

section \<open>Data model\<close>

text \<open>
  The pipeline \<open>generate_and_filter_images\<close> of
  \<open>atlaswildfiretool/generative/utils.py\<close> works on 2D numpy arrays. An array is the
  list of its rows. Pixel values of decoded, smoothed and observation images are numpy
  floats, modelled as exact rationals; a binarized image is an integer array, since
  \<open>np.where(c, 1, 0)\<close> builds it from the Python integers 1 and 0.
\<close>

type_synonym 'a image = "'a list list"

text \<open>The exceptions the function can leave through, by their Python names.\<close>

datatype error = ValueError | TypeError | IndexError

text \<open>
  What the function writes to standard output, one constructor for each \<open>print\<close> call
  of the source, holding the values the call formats.
\<close>

datatype printed =
    GeneratedImageLine nat nat
  | ThresholdLine rat
  | TotalPixelsLine nat
  | ActivePixelsLine nat
  | PixelRatioLine "rat option"
  | NoImagesLine
  | TotalValidLine nat

text \<open>\<open>lowest_mse\<close> starts as \<open>float("inf")\<close> and holds a computed MSE afterwards.\<close>

datatype bound = Infinity | Finite rat

fun below :: "rat \<Rightarrow> bound \<Rightarrow> bool" where
  "below m Infinity = True"
| "below m (Finite l) = (m < l)"

text \<open>The five local variables that Phase A keeps for its running best candidate.\<close>

record best =
  lowest_mse :: bound
  highest_ssim :: rat
  best_generated_image :: "int image option"
  best_obs_image :: "rat image option"
  best_obs_index :: "nat option"

section \<open>Post-processing and the ratio filter\<close>

text \<open>
  The decoded batch is the numpy array of a torch tensor: \<open>float32\<close> for a model of
  torch's default precision, \<open>float64\<close> for a double-precision one, and scipy's
  \<open>gaussian_filter\<close> returns the precision it is given. \<open>threshold\<close> is a Python
  float. In \<open>generated_image >= threshold\<close> numpy converts the Python float to the
  precision of the array before it compares, so against a \<open>float32\<close> array the
  threshold is first rounded to \<open>float32\<close>.
\<close>

datatype dtype = Float32 | Float64

text \<open>A threshold after the conversion: a number, or an infinity when it overflowed.\<close>

datatype scalar = MinusInf | Num rat | PlusInf

definition pow2 :: "int \<Rightarrow> rat" where
  "pow2 e = (if 0 \<le> e then 2 ^ nat e else 1 / 2 ^ nat (- e))"

text \<open>Rounding to the nearest integer, a tie to the even one.\<close>

definition round_half_even :: "rat \<Rightarrow> int" where
  "round_half_even x =
     (let f = \<lfloor>x\<rfloor>; d = x - of_int f
      in if d < 1/2 then f else if 1/2 < d then f + 1 else if even f then f else f + 1)"

text \<open>
  The binary exponent that \<open>float32\<close> gives \<open>x\<close>: the \<open>e\<close> with
  \<open>2^e \<le> |x| < 2^(e+1)\<close>, kept within -126 (the subnormal range) and 127. It is
  found by halving a magnitude of 1 or more, and by doubling a smaller one.
\<close>

function exponent_up :: "rat \<Rightarrow> int \<Rightarrow> int" where
  "exponent_up x e = (if x < 2 \<or> 127 \<le> e then e else exponent_up (x / 2) (e + 1))"
  by pat_completeness auto
termination
  by (relation "measure (\<lambda>(x, e). nat (127 - e))") auto

function exponent_down :: "rat \<Rightarrow> int \<Rightarrow> int" where
  "exponent_down x e = (if 1 \<le> x \<or> e \<le> -126 then e else exponent_down (2 * x) (e - 1))"
  by pat_completeness auto
termination
  by (relation "measure (\<lambda>(x, e). nat (e + 126))") auto

definition float32_exponent :: "rat \<Rightarrow> int" where
  "float32_exponent x =
     (if 1 \<le> \<bar>x\<bar> then exponent_up \<bar>x\<bar> 0 else exponent_down \<bar>x\<bar> 0)"

text \<open>
  The IEEE 754 conversion to \<open>float32\<close>: round to nearest, ties to even, on the 24
  bits of the significand, and an infinity from \<open>2^128\<close> on.
\<close>

definition float32 :: "rat \<Rightarrow> scalar" where
  "float32 x =
     (let q = pow2 (float32_exponent x - 23);
          r = of_int (round_half_even (x / q)) * q
      in if pow2 128 \<le> r then PlusInf else if r \<le> - pow2 128 then MinusInf else Num r)"

text \<open>The Python float as the array's precision has it; a Python float is a \<open>float64\<close>.\<close>

fun cast :: "dtype \<Rightarrow> rat \<Rightarrow> scalar" where
  "cast Float32 threshold = float32 threshold"
| "cast Float64 threshold = Num threshold"

text \<open>\<open>v >= t\<close> for a pixel \<open>v\<close> and a converted threshold \<open>t\<close>.\<close>

fun at_least :: "rat \<Rightarrow> scalar \<Rightarrow> bool" where
  "at_least v MinusInf = True"
| "at_least v (Num t) = (t \<le> v)"
| "at_least v PlusInf = False"

text \<open>\<open>np.where(generated_image >= threshold, 1, 0)\<close> on an array of the given precision.\<close>

definition binarize :: "dtype \<Rightarrow> rat \<Rightarrow> rat image \<Rightarrow> int image" where
  "binarize dtype threshold generated_image =
     map (map (\<lambda>v. if at_least v (cast dtype threshold) then 1 else 0)) generated_image"

text \<open>\<open>np.prod(binary_image.shape)\<close> and \<open>np.sum(binary_image == 1)\<close>\<close>

definition total_pixels :: "'a image \<Rightarrow> nat" where
  "total_pixels binary_image = length (concat binary_image)"

definition active_pixels :: "int image \<Rightarrow> nat" where
  "active_pixels binary_image = length (filter (\<lambda>p. p = 1) (concat binary_image))"

text \<open>
  \<open>(active_pixels / total_pixels) * 100\<close>. Both operands are numpy integers, so an
  array without pixels gives 0/0 = nan (with a warning, no exception); \<open>None\<close> is that
  nan. For the 65536 pixels of a 256 x 256 image the float quotient and product are
  exact, so the rational is the value the code computes.
\<close>

definition pixel_ratio :: "int image \<Rightarrow> rat option" where
  "pixel_ratio binary_image =
     (if total_pixels binary_image = 0 then None
      else Some ((of_nat (active_pixels binary_image) / of_nat (total_pixels binary_image)) * 100))"

text \<open>
  \<open>pixel_ratio_range[0] <= pixel_ratio <= pixel_ratio_range[1]\<close>; every comparison
  with nan is false.
\<close>

definition within_range :: "rat \<times> rat \<Rightarrow> rat option \<Rightarrow> bool" where
  "within_range pixel_ratio_range ratio =
     (case ratio of
        None \<Rightarrow> False
      | Some r \<Rightarrow> fst pixel_ratio_range \<le> r \<and> r \<le> snd pixel_ratio_range)"

text \<open>
  The loop \<open>for i in range(num_samples)\<close> over the smoothed images. Its state is the
  list \<open>filtered_generated_images\<close> and the output written so far. The images have
  two axes after the reshape, none of length 1, so \<open>squeeze\<close> returns them as they are.
  \<open>dtype\<close> is the precision of the smoothed images.
\<close>

fun filter_loop ::
  "dtype \<Rightarrow> nat \<Rightarrow> rat \<times> rat \<Rightarrow> rat \<Rightarrow> bool \<Rightarrow> nat \<Rightarrow> rat image list \<Rightarrow>
   int image list \<times> printed list \<Rightarrow> int image list \<times> printed list" where
  "filter_loop dtype num_samples pixel_ratio_range threshold print_info i [] st = st"
| "filter_loop dtype num_samples pixel_ratio_range threshold print_info i (generated_image # rest)
     (filtered_generated_images, out) =
     (let binary_image = binarize dtype threshold generated_image;
          ratio = pixel_ratio binary_image;
          out' = (if print_info
                  then out @ [GeneratedImageLine (i + 1) num_samples,
                              ThresholdLine threshold,
                              TotalPixelsLine (total_pixels binary_image),
                              ActivePixelsLine (active_pixels binary_image),
                              PixelRatioLine ratio]
                  else out);
          filtered' = (if within_range pixel_ratio_range ratio
                       then filtered_generated_images @ [binary_image]
                       else filtered_generated_images)
      in filter_loop dtype num_samples pixel_ratio_range threshold print_info (i + 1) rest
           (filtered', out'))"

text \<open>
  The ratio filter by itself: the part of the loop body after the binarization, run over
  images that are binarized already.
\<close>

definition ratio_filter :: "rat \<times> rat \<Rightarrow> int image list \<Rightarrow> int image list" where
  "ratio_filter pixel_ratio_range binary_images =
     fold (\<lambda>binary_image filtered_generated_images.
             if within_range pixel_ratio_range (pixel_ratio binary_image)
             then filtered_generated_images @ [binary_image]
             else filtered_generated_images)
          binary_images []"

section \<open>Similarity metrics\<close>

text \<open>
  \<open>sklearn.metrics.mean_squared_error\<close> on two 2D arrays: the arithmetic mean of the
  squared elementwise differences. It raises ValueError when the shapes differ or an
  array has no element. Rounding of the floating-point sum is not modelled.
\<close>

definition mean_squared_error :: "rat image \<Rightarrow> rat image \<Rightarrow> error + rat" where
  "mean_squared_error y_true y_pred =
     (if map length y_true \<noteq> map length y_pred \<or> concat y_true = [] then Inl ValueError
      else Inr (sum_list (map2 (\<lambda>a b. (a - b)\<^sup>2) (concat y_true) (concat y_pred))
                / of_nat (length (concat y_true))))"

text \<open>
  An integer array where a float array is expected is converted elementwise, to
  \<open>float64\<close>.
\<close>

definition as_float :: "int image \<Rightarrow> rat image" where
  "as_float img = map (map of_int) img"

text \<open>\<open>generated_image.max() - generated_image.min()\<close>, on an array with an element.\<close>

definition data_range :: "int image \<Rightarrow> int" where
  "data_range generated_image =
     (let pixels = concat generated_image
      in fold max (tl pixels) (hd pixels) - fold min (tl pixels) (hd pixels))"

section \<open>Phase A: the best cross-match\<close>

definition initial_best :: best where
  "initial_best =
     \<lparr>lowest_mse = Infinity, highest_ssim = -1, best_generated_image = None,
      best_obs_image = None, best_obs_index = None\<rparr>"

text \<open>
  The body of the inner loop for one pair. \<open>ssim\<close> is
  \<open>skimage.metrics.structural_similarity\<close>, taken as a parameter: it receives the
  observation image, the generated image and the \<open>data_range\<close> argument, and its
  value is a number (a nan result is not modelled). It is called once
  \<open>mean_squared_error\<close> has accepted the pair.
\<close>

definition compare_pair ::
  "(rat image \<Rightarrow> int image \<Rightarrow> int \<Rightarrow> rat) \<Rightarrow> int image \<Rightarrow> nat \<Rightarrow> rat image \<Rightarrow> best \<Rightarrow>
   error + best" where
  "compare_pair ssim generated_image j obs_image b =
     (case mean_squared_error obs_image (as_float generated_image) of
        Inl e \<Rightarrow> Inl e
      | Inr mse \<Rightarrow>
          (let ssim_value = ssim obs_image generated_image (data_range generated_image)
           in if below mse (lowest_mse b) \<and> ssim_value > highest_ssim b
              then Inr \<lparr>lowest_mse = Finite mse, highest_ssim = ssim_value,
                        best_generated_image = Some generated_image,
                        best_obs_image = Some obs_image, best_obs_index = Some j\<rparr>
              else Inr b))"

text \<open>
  \<open>for j in range(len(obs_dataset))\<close>: the observation images from index \<open>j\<close> on.
  \<open>obs_dataset\<close> is the list of the squeezed observation images.
\<close>

fun obs_loop ::
  "(rat image \<Rightarrow> int image \<Rightarrow> int \<Rightarrow> rat) \<Rightarrow> int image \<Rightarrow> nat \<Rightarrow> rat image list \<Rightarrow> best \<Rightarrow>
   error + best" where
  "obs_loop ssim generated_image j [] b = Inr b"
| "obs_loop ssim generated_image j (obs_image # rest) b =
     (case compare_pair ssim generated_image j obs_image b of
        Inl e \<Rightarrow> Inl e
      | Inr b' \<Rightarrow> obs_loop ssim generated_image (j + 1) rest b')"

text \<open>\<open>for i in range(total_valid_generated_images)\<close>\<close>

fun generated_loop ::
  "(rat image \<Rightarrow> int image \<Rightarrow> int \<Rightarrow> rat) \<Rightarrow> rat image list \<Rightarrow> int image list \<Rightarrow> best \<Rightarrow>
   error + best" where
  "generated_loop ssim obs_dataset [] b = Inr b"
| "generated_loop ssim obs_dataset (generated_image # rest) b =
     (case obs_loop ssim generated_image 0 obs_dataset b of
        Inl e \<Rightarrow> Inl e
      | Inr b' \<Rightarrow> generated_loop ssim obs_dataset rest b')"

definition phase_a ::
  "(rat image \<Rightarrow> int image \<Rightarrow> int \<Rightarrow> rat) \<Rightarrow> int image list \<Rightarrow> rat image list \<Rightarrow> error + best" where
  "phase_a ssim filtered_generated_images obs_dataset =
     generated_loop ssim obs_dataset filtered_generated_images initial_best"

text \<open>
  The first plot. \<open>imshow\<close> raises TypeError on \<open>None\<close>, which is what
  \<open>best_generated_image\<close> and \<open>best_obs_image\<close> still are when Phase A never
  updated them; this is the first use of the best images after Phase A. The plot does
  not read \<open>best_obs_index\<close>.
\<close>

definition plot_best :: "best \<Rightarrow> error + int image \<times> rat image" where
  "plot_best b =
     (case (best_generated_image b, best_obs_image b) of
        (Some g, Some ob) \<Rightarrow> Inr (g, ob)
      | _ \<Rightarrow> Inl TypeError)"

section \<open>Phase B: ranking by distance to the best\<close>

text \<open>The loop that fills \<open>mse_list\<close>.\<close>

fun mse_loop :: "int image \<Rightarrow> int image list \<Rightarrow> rat list \<Rightarrow> error + rat list" where
  "mse_loop best_generated [] mse_list = Inr mse_list"
| "mse_loop best_generated (generated_image # rest) mse_list =
     (case mean_squared_error (as_float best_generated) (as_float generated_image) of
        Inl e \<Rightarrow> Inl e
      | Inr mse \<Rightarrow> mse_loop best_generated rest (mse_list @ [mse]))"

text \<open>
  \<open>np.argsort\<close>: the indices that sort the list ascending. Its default sorting
  algorithm gives no promise on the order of equal keys; the model takes the stable one.
\<close>

definition argsort :: "rat list \<Rightarrow> nat list" where
  "argsort xs = sort_key (\<lambda>i. xs ! i) [0..<length xs]"

text \<open>The slice \<open>a[:n]\<close>: a negative \<open>n\<close> counts from the end.\<close>

definition slice_to :: "int \<Rightarrow> 'a list \<Rightarrow> 'a list" where
  "slice_to n xs = (if n \<ge> 0 then take (nat n) xs else take (length xs - nat (- n)) xs)"

definition top_indices :: "int \<Rightarrow> rat list \<Rightarrow> nat list" where
  "top_indices num_images mse_list = slice_to num_images (argsort mse_list)"

text \<open>
  The second plot. With \<open>num_rows\<close> rows of 10 columns, \<open>plt.subplots\<close> raises
  ValueError unless \<open>num_rows\<close> is positive; for one row it returns a one-dimensional
  array of axes, on which \<open>ax[row, col]\<close> raises IndexError in the first round of the
  loop (\<open>images_to_plot\<close> is at least 1 then). With two rows or more every
  \<open>ax[row, col]\<close> is in range, and \<open>top_images[i]\<close> raises IndexError once \<open>i\<close>
  reaches the length of \<open>top_images\<close>.
\<close>

definition plot_top :: "int \<Rightarrow> int image list \<Rightarrow> error + unit" where
  "plot_top num_images top_images =
     (let images_to_plot = min num_images 100;
          num_rows = (images_to_plot + 9) div 10
      in if num_rows \<le> 0 then Inl ValueError
         else if num_rows = 1 then Inl IndexError
         else if int (length top_images) < images_to_plot then Inl IndexError
         else Inr ())"

section \<open>The pipeline\<close>

text \<open>
  The seven components of the tuple the function returns: \<open>filtered_generated_images\<close>,
  \<open>best_generated_image\<close>, \<open>best_obs_image\<close>, \<open>best_obs_index\<close>, \<open>lowest_mse\<close>,
  \<open>top_images\<close>, \<open>top_mses\<close>. The two best images have passed \<open>imshow\<close>, so they
  are arrays; \<open>best_obs_index\<close> and \<open>lowest_mse\<close> are returned as Phase A left them.
\<close>

type_synonym result =
  "int image list \<times> int image \<times> rat image \<times> nat option \<times> bound \<times> int image list \<times>
   rat list"

text \<open>The part of the function after the emptiness check.\<close>

definition match_and_rank ::
  "(rat image \<Rightarrow> int image \<Rightarrow> int \<Rightarrow> rat) \<Rightarrow> rat image list \<Rightarrow> int \<Rightarrow> int image list \<Rightarrow>
   error + result" where
  "match_and_rank ssim obs_dataset num_images filtered_generated_images =
     (case phase_a ssim filtered_generated_images obs_dataset of
        Inl e \<Rightarrow> Inl e
      | Inr b \<Rightarrow>
          (case plot_best b of
             Inl e \<Rightarrow> Inl e
           | Inr (best_generated, best_obs) \<Rightarrow>
               (case mse_loop best_generated filtered_generated_images [] of
                  Inl e \<Rightarrow> Inl e
                | Inr mse_list \<Rightarrow>
                    (let top = top_indices num_images mse_list;
                         top_images = map (\<lambda>i. filtered_generated_images ! i) top;
                         top_mses = map (\<lambda>i. mse_list ! i) top
                     in case plot_top num_images top_images of
                          Inl e \<Rightarrow> Inl e
                        | Inr _ \<Rightarrow>
                            Inr (filtered_generated_images, best_generated, best_obs,
                                 best_obs_index b, lowest_mse b, top_images, top_mses)))))"

text \<open>
  The whole function. The sampler is outside the model: \<open>generated_images\<close> is the
  decoded batch after \<open>reshape((num_samples, 256, 256))\<close>, so \<open>num_samples\<close> is its
  length, \<open>dtype\<close> is its precision, and \<open>gaussian_filter\<close> is scipy's filter with
  \<open>sigma=1\<close>, a parameter.
  The result is the output written and either the exception raised, or \<open>None\<close>, or the
  tuple.
\<close>

definition generate_and_filter_images ::
  "dtype \<Rightarrow> (rat image \<Rightarrow> rat image) \<Rightarrow> (rat image \<Rightarrow> int image \<Rightarrow> int \<Rightarrow> rat) \<Rightarrow>
   rat image list \<Rightarrow> rat image list \<Rightarrow> rat \<times> rat \<Rightarrow> rat \<Rightarrow> int \<Rightarrow> bool \<Rightarrow>
   printed list \<times> (error + result option)" where
  "generate_and_filter_images dtype gaussian_filter ssim generated_images obs_dataset
     pixel_ratio_range threshold num_images print_info =
     (let num_samples = length generated_images;
          smoothed_images = map gaussian_filter generated_images;
          (filtered_generated_images, out) =
             filter_loop dtype num_samples pixel_ratio_range threshold print_info 0
               smoothed_images ([], [])
      in if length filtered_generated_images = 0 then (out @ [NoImagesLine], Inr None)
         else
           (let total_valid_generated_images = length filtered_generated_images;
                out' = out @ [TotalValidLine total_valid_generated_images]
            in case match_and_rank ssim obs_dataset num_images filtered_generated_images of
                 Inl e \<Rightarrow> (out', Inl e)
               | Inr r \<Rightarrow> (out', Inr (Some r))))"

text \<open>The defaults of the signature that the properties below refer to.\<close>

definition default_pixel_ratio_range :: "rat \<times> rat" where
  "default_pixel_ratio_range = (5, 14)"

definition default_num_images :: int where
  "default_num_images = 10"

section \<open>The invariant of Phase A\<close>

text \<open>
  A running best that has been set: its five fields describe one compared pair, a
  filtered image and the observation image at the recorded index, with the MSE and the
  SSIM of exactly that pair, and the SSIM is above the initial \<open>-1\<close>.
\<close>

definition matched ::
  "(rat image \<Rightarrow> int image \<Rightarrow> int \<Rightarrow> rat) \<Rightarrow> int image list \<Rightarrow> rat image list \<Rightarrow> best \<Rightarrow> bool" where
  "matched ssim filtered_generated_images obs_dataset b =
     (\<exists>g ob j m.
        b = \<lparr>lowest_mse = Finite m, highest_ssim = ssim ob g (data_range g),
             best_generated_image = Some g, best_obs_image = Some ob, best_obs_index = Some j\<rparr>
        \<and> g \<in> set filtered_generated_images
        \<and> j < length obs_dataset \<and> obs_dataset ! j = ob
        \<and> mean_squared_error ob (as_float g) = Inr m
        \<and> -1 < ssim ob g (data_range g))"

section \<open>Properties of the post-processor and the ratio filter\<close>

lemma filter_loop_fst:
  "fst (filter_loop d n r t p i imgs (acc, out)) =
     acc @ filter (\<lambda>b. within_range r (pixel_ratio b)) (map (binarize d t) imgs)"
  by (induction imgs arbitrary: i acc out) (simp_all add: Let_def)

lemma fold_keep:
  "fold (\<lambda>b acc. if P b then acc @ [b] else acc) bs acc = acc @ filter P bs"
  by (induction bs arbitrary: acc) simp_all

lemma ratio_filter_eq:
  "ratio_filter r bs = filter (\<lambda>b. within_range r (pixel_ratio b)) bs"
  by (simp add: ratio_filter_def fold_keep)

lemma filter_loop_ratio_filter:
  "fst (filter_loop d n r t p 0 imgs ([], [])) = ratio_filter r (map (binarize d t) imgs)"
  by (simp add: filter_loop_fst ratio_filter_eq)

text \<open>
  The conversion of the threshold: 1/2 is a \<open>float32\<close>, and a converted threshold is
  within half a unit in the last place of the threshold.
\<close>

lemma float32_half: "float32 (1/2) = Num (1/2)"
  by code_simp

lemma pow2_pos: "0 < pow2 e"
  by (simp add: pow2_def)

lemma round_half_even_close: "\<bar>of_int (round_half_even x) - x\<bar> \<le> 1/2"
proof -
  have "of_int \<lfloor>x\<rfloor> \<le> x" and "x < of_int \<lfloor>x\<rfloor> + 1"
    by linarith+
  then show ?thesis
    by (auto simp: round_half_even_def Let_def abs_le_iff)
qed

lemma float32_close:
  assumes "float32 t = Num r"
  shows "2 * \<bar>r - t\<bar> \<le> pow2 (float32_exponent t - 23)"
proof -
  let ?q = "pow2 (float32_exponent t - 23)"
  have q: "0 < ?q" by (rule pow2_pos)
  from assms have r: "r = of_int (round_half_even (t / ?q)) * ?q"
    by (auto simp: float32_def Let_def split: if_splits)
  have "r - t = (of_int (round_half_even (t / ?q)) - t / ?q) * ?q"
    using q by (simp add: r algebra_simps)
  then have "\<bar>r - t\<bar> = \<bar>of_int (round_half_even (t / ?q)) - t / ?q\<bar> * ?q"
    using q by (simp add: abs_mult)
  also have "\<dots> \<le> 1/2 * ?q"
    using round_half_even_close [of "t / ?q"] q by (intro mult_right_mono) simp_all
  finally show ?thesis by simp
qed

lemma binarize_shape: "map length (binarize d t img) = map length img"
  by (simp add: binarize_def)

lemma binarize_pixel:
  "i < length img \<Longrightarrow> j < length (img ! i) \<Longrightarrow>
     binarize d t img ! i ! j = (if at_least (img ! i ! j) (cast d t) then 1 else 0)"
  by (simp add: binarize_def)

lemma binarize_all_0:
  "\<forall>v\<in>set (concat img). \<not> at_least v (cast d t) \<Longrightarrow>
     binarize d t img = map (map (\<lambda>_. 0)) img"
  by (fastforce simp: binarize_def)

lemma binarize_all_1:
  "\<forall>v\<in>set (concat img). at_least v (cast d t) \<Longrightarrow>
     binarize d t img = map (map (\<lambda>_. 1)) img"
  by (fastforce simp: binarize_def)

text \<open>
  C5. As the code has it: the binarized image has the shape of the smoothed image; each
  of its pixels is 1 where the smoothed pixel is at least the threshold as converted to
  the precision of the array, and 0 elsewhere, so it holds only 0 and 1; a converted
  threshold above every pixel gives the all-0 image and one that no pixel is below gives
  the all-1 image. Where the conversion leaves the threshold as it is (always for a
  \<open>float64\<close> array, and for a \<open>float32\<close> array when the threshold is a
  \<open>float32\<close>), the comparison is with the threshold itself; for a \<open>float32\<close> array
  the converted threshold is within half a unit in the last place of the threshold.
\<close>

theorem binarize_threshold:
  "map length (binarize dtype t img) = map length img
   \<and> (\<forall>i<length img. \<forall>j<length (img ! i).
         binarize dtype t img ! i ! j
           = (if at_least (img ! i ! j) (cast dtype t) then 1 else 0))
   \<and> set (concat (binarize dtype t img)) \<subseteq> {0, 1}
   \<and> ((\<forall>v\<in>set (concat img). \<not> at_least v (cast dtype t)) \<longrightarrow>
        binarize dtype t img = map (map (\<lambda>_. 0)) img)
   \<and> ((\<forall>v\<in>set (concat img). at_least v (cast dtype t)) \<longrightarrow>
        binarize dtype t img = map (map (\<lambda>_. 1)) img)
   \<and> (cast dtype t = Num t \<longrightarrow>
        (\<forall>i<length img. \<forall>j<length (img ! i).
           binarize dtype t img ! i ! j = (if img ! i ! j \<ge> t then 1 else 0))
        \<and> ((\<forall>v\<in>set (concat img). v < t) \<longrightarrow> binarize dtype t img = map (map (\<lambda>_. 0)) img)
        \<and> ((\<forall>v\<in>set (concat img). t \<le> v) \<longrightarrow> binarize dtype t img = map (map (\<lambda>_. 1)) img))
   \<and> cast Float64 t = Num t
   \<and> (\<forall>r. cast Float32 t = Num r \<longrightarrow> 2 * \<bar>r - t\<bar> \<le> pow2 (float32_exponent t - 23))"
proof -
  have bin: "set (concat (binarize dtype t img)) \<subseteq> {0, 1}"
    by (auto simp: binarize_def)
  have exact: "(\<forall>i<length img. \<forall>j<length (img ! i).
           binarize dtype t img ! i ! j = (if img ! i ! j \<ge> t then 1 else 0))
        \<and> ((\<forall>v\<in>set (concat img). v < t) \<longrightarrow> binarize dtype t img = map (map (\<lambda>_. 0)) img)
        \<and> ((\<forall>v\<in>set (concat img). t \<le> v) \<longrightarrow> binarize dtype t img = map (map (\<lambda>_. 1)) img)"
    if c: "cast dtype t = Num t"
  proof -
    have p: "\<forall>i<length img. \<forall>j<length (img ! i).
           binarize dtype t img ! i ! j = (if img ! i ! j \<ge> t then 1 else 0)"
      by (simp add: binarize_pixel c)
    have l: "(\<forall>v\<in>set (concat img). v < t) \<longrightarrow> binarize dtype t img = map (map (\<lambda>_. 0)) img"
      using binarize_all_0 [of img dtype t] by (auto simp: c not_le)
    have h: "(\<forall>v\<in>set (concat img). t \<le> v) \<longrightarrow> binarize dtype t img = map (map (\<lambda>_. 1)) img"
      using binarize_all_1 [of img dtype t] by (auto simp: c)
    from p l h show ?thesis by blast
  qed
  have close: "\<forall>r. cast Float32 t = Num r \<longrightarrow> 2 * \<bar>r - t\<bar> \<le> pow2 (float32_exponent t - 23)"
    by (simp add: float32_close)
  have shape: "map length (binarize dtype t img) = map length img"
    by (rule binarize_shape)
  have pix: "\<forall>i<length img. \<forall>j<length (img ! i).
         binarize dtype t img ! i ! j
           = (if at_least (img ! i ! j) (cast dtype t) then 1 else 0)"
    by (simp add: binarize_pixel)
  have lo: "(\<forall>v\<in>set (concat img). \<not> at_least v (cast dtype t)) \<longrightarrow>
        binarize dtype t img = map (map (\<lambda>_. 0)) img"
    using binarize_all_0 [of img dtype t] by blast
  have hi: "(\<forall>v\<in>set (concat img). at_least v (cast dtype t)) \<longrightarrow>
        binarize dtype t img = map (map (\<lambda>_. 1)) img"
    using binarize_all_1 [of img dtype t] by blast
  have c64: "cast Float64 t = Num t" by simp
  from shape pix bin lo hi exact c64 close show ?thesis by blast
qed

theorem binarize_threshold_witness:
  "binarize Float32 (1/2) [[1/10, 1/2], [7/10, 1/5]] = [[0, 1], [1, 0]]
   \<and> binarize Float32 2 [[1/10, 1/2], [7/10, 1/5]] = [[0, 0], [0, 0]]
   \<and> binarize Float32 (-1) [[1/10, 1/2], [7/10, 1/5]] = [[1, 1], [1, 1]]
   \<and> binarize Float64 (7/10) [[1/10, 1/2], [7/10, 1/5]] = [[0, 0], [1, 0]]
   \<and> cast Float32 (3152519739159347 / 4503599627370496) = Num (11744051 / 16777216)
   \<and> 2 * \<bar>11744051 / 16777216 - 3152519739159347 / 4503599627370496\<bar>
       \<le> pow2 (float32_exponent (3152519739159347 / 4503599627370496) - 23)"
proof -
  let ?img = "[[1/10, 1/2], [7/10, 1/5 :: rat]]"
  have c: "float32 (1/2) = Num (1/2)" "float32 2 = Num 2" "float32 (-1) = Num (-1)"
    "float32 (3152519739159347 / 4503599627370496) = Num (11744051 / 16777216)"
    by code_simp+
  have half: "binarize Float32 (1/2) ?img ! 0 ! 1 = 1"
    using binarize_threshold [of Float32 "1/2" ?img] by (simp add: c)
  have lo: "\<forall>v\<in>set (concat ?img). \<not> at_least v (cast Float32 2)"
    by (simp add: c)
  have hi: "\<forall>v\<in>set (concat ?img). at_least v (cast Float32 (-1))"
    by (simp add: c)
  have z: "binarize Float32 2 ?img = map (map (\<lambda>_. 0)) ?img"
    using binarize_threshold [of Float32 2 ?img] lo by blast
  have o: "binarize Float32 (-1) ?img = map (map (\<lambda>_. 1)) ?img"
    using binarize_threshold [of Float32 "-1" ?img] hi by blast
  have b: "2 * \<bar>11744051 / 16777216 - 3152519739159347 / 4503599627370496\<bar>
       \<le> pow2 (float32_exponent (3152519739159347 / 4503599627370496) - 23)"
    by (rule binarize_threshold [of Float32 "3152519739159347 / 4503599627370496" ?img,
          THEN conjunct2, THEN conjunct2, THEN conjunct2, THEN conjunct2, THEN conjunct2,
          THEN conjunct2, THEN conjunct2, THEN spec, THEN mp]) (simp add: c)
  have e: "binarize Float32 (1/2) ?img = [[0, 1], [1, 0]]"
    "binarize Float64 (7/10) ?img = [[0, 0], [1, 0]]"
    by (simp_all add: binarize_def c)
  from half z o b e show ?thesis by (simp add: c)
qed

text \<open>
  With the threshold itself in place of the converted one the property fails on a
  \<open>float32\<close> array: Python's 0.7 is the \<open>float64\<close> 3152519739159347 / 2^52, which
  converts to the \<open>float32\<close> 11744051 / 2^24 below it, so a pixel of exactly that value
  is binarized to 1 although it is less than the threshold.
\<close>

theorem binarize_threshold_counterexample:
  "binarize Float32 (3152519739159347 / 4503599627370496)
      [[11744051 / 16777216, 0], [0, 0]] = [[1, 0], [0, 0]]
   \<and> (11744051 / 16777216 :: rat) < 3152519739159347 / 4503599627370496
   \<and> binarize Float32 (3152519739159347 / 4503599627370496)
        [[11744051 / 16777216, 0], [0, 0]] ! 0 ! 0
       \<noteq> (if (11744051 / 16777216 :: rat) \<ge> 3152519739159347 / 4503599627370496
           then 1 else 0)"
  by code_simp

lemma binarize_as_float:
  assumes "0 < t" and "t \<le> 1"
  shows "binarize Float64 t (as_float (binarize d t' img)) = binarize d t' img"
  using assms by (simp add: binarize_def as_float_def)

text \<open>
  C8. The ratio filter is idempotent: run on its own output with the same range, it
  returns that output, the same images in the same order. This holds for the ratio test
  run on any list of binarized images and on the list the filter loop has built; and
  for a threshold above 0 and at most 1, where binarizing a 0/1 image again changes
  nothing, it holds for the whole loop run again on its output (integer arrays, which
  numpy compares with the threshold in \<open>float64\<close>).
\<close>

theorem ratio_filter_idempotent:
  "ratio_filter pixel_ratio_range (ratio_filter pixel_ratio_range binary_images)
     = ratio_filter pixel_ratio_range binary_images
   \<and> ratio_filter pixel_ratio_range
       (fst (filter_loop dtype num_samples pixel_ratio_range threshold print_info 0
               smoothed_images ([], [])))
     = fst (filter_loop dtype num_samples pixel_ratio_range threshold print_info 0
              smoothed_images ([], []))
   \<and> (0 < threshold \<and> threshold \<le> 1 \<longrightarrow>
        fst (filter_loop Float64 num_samples' pixel_ratio_range threshold print_info' 0
               (map as_float
                  (fst (filter_loop dtype num_samples pixel_ratio_range threshold print_info 0
                          smoothed_images ([], []))))
               ([], []))
        = fst (filter_loop dtype num_samples pixel_ratio_range threshold print_info 0
                 smoothed_images ([], [])))"
proof -
  let ?P = "\<lambda>b. within_range pixel_ratio_range (pixel_ratio b)"
  let ?out = "fst (filter_loop dtype num_samples pixel_ratio_range threshold print_info 0
                     smoothed_images ([], []))"
  have out: "?out = filter ?P (map (binarize dtype threshold) smoothed_images)"
    by (simp add: filter_loop_fst del: filter_loop.simps)
  have a: "ratio_filter pixel_ratio_range (ratio_filter pixel_ratio_range binary_images)
     = ratio_filter pixel_ratio_range binary_images"
    by (simp add: ratio_filter_eq)
  have b: "ratio_filter pixel_ratio_range ?out = ?out"
    unfolding out by (simp add: ratio_filter_eq)
  have c: "fst (filter_loop Float64 num_samples' pixel_ratio_range threshold print_info' 0
               (map as_float ?out) ([], [])) = ?out"
    if t: "0 < threshold" "threshold \<le> 1"
  proof -
    have "map (binarize Float64 threshold) (map as_float ?out) = ?out"
      unfolding out map_map
      by (rule map_idI) (auto simp: binarize_as_float [OF t])
    then have "fst (filter_loop Float64 num_samples' pixel_ratio_range threshold print_info' 0
               (map as_float ?out) ([], [])) = filter ?P ?out"
      by (simp add: filter_loop_fst del: filter_loop.simps)
    also have "\<dots> = ?out" unfolding out by simp
    finally show ?thesis .
  qed
  from a b c show ?thesis by blast
qed

theorem ratio_filter_idempotent_witness:
  "fst (filter_loop Float32 2 (5, 30) (1/2) False 0
      [[[9/10, 1/10], [1/10, 1/10]], [[9/10, 9/10], [9/10, 1/10]]] ([], []))
     = [[[1, 0], [0, 0]]]
   \<and> fst (filter_loop Float64 1 (5, 30) (1/2) False 0 (map as_float [[[1, 0], [0, 0]]]) ([], []))
     = [[[1, 0], [0, 0]]]
   \<and> ratio_filter (5, 30) [[[1, 0], [0, 0]]] = [[[1, 0], [0, 0]]]"
proof -
  have run: "fst (filter_loop Float32 2 (5, 30) (1/2) False 0
      [[[9/10, 1/10], [1/10, 1/10]], [[9/10, 9/10], [9/10, 1/10]]] ([], []))
     = [[[1, 0], [0, 0]]]"
    by (simp add: binarize_def float32_half pixel_ratio_def total_pixels_def active_pixels_def
        within_range_def)
  have t: "(0::rat) < 1/2 \<and> (1/2::rat) \<le> 1" by simp
  note i = ratio_filter_idempotent [of "(5, 30)" _ Float32 2 "1/2" False
      "[[[9/10, 1/10], [1/10, 1/10]], [[9/10, 9/10], [9/10, 1/10]]]" 1 False]
  from i [THEN conjunct2, THEN conjunct1] i [THEN conjunct2, THEN conjunct2, rule_format, OF t] run
  show ?thesis by simp
qed

lemma pixel_ratio_Some:
  "pixel_ratio b = Some r \<Longrightarrow>
     total_pixels b \<noteq> 0 \<and> r = 100 * (of_nat (active_pixels b) / of_nat (total_pixels b))"
  by (cases "total_pixels b = 0") (auto simp: pixel_ratio_def)

lemma within_range_iff:
  "within_range (lo, hi) (pixel_ratio b) = (\<exists>r. pixel_ratio b = Some r \<and> lo \<le> r \<and> r \<le> hi)"
  by (cases "pixel_ratio b") (simp_all add: within_range_def)

text \<open>
  C2. After the filter loop, every image of the filtered set has a pixel ratio, equal to
  100 times the number of its pixels that are 1 over the number of its pixels, that lies
  between the two ends of the range, both included; the filtered set holds binarized
  candidates only, and a binarized candidate is in it exactly when its ratio lies in the
  range, so every candidate whose ratio is outside (or is nan) is left out.
\<close>

theorem filtered_set_within_range:
  assumes run: "filter_loop dtype num_samples (lo, hi) threshold print_info 0 smoothed_images ([], [])
                  = (filtered_generated_images, out)"
  shows "(\<forall>b\<in>set filtered_generated_images.
            \<exists>r. pixel_ratio b = Some r
               \<and> r = 100 * (of_nat (active_pixels b) / of_nat (total_pixels b))
               \<and> lo \<le> r \<and> r \<le> hi)
       \<and> set filtered_generated_images \<subseteq> binarize dtype threshold ` set smoothed_images
       \<and> (\<forall>img\<in>set smoothed_images.
            (binarize dtype threshold img \<in> set filtered_generated_images)
              = (\<exists>r. pixel_ratio (binarize dtype threshold img) = Some r \<and> lo \<le> r \<and> r \<le> hi))"
proof -
  have eq: "filtered_generated_images =
      filter (\<lambda>b. within_range (lo, hi) (pixel_ratio b)) (map (binarize dtype threshold) smoothed_images)"
    using filter_loop_fst [of dtype num_samples "(lo, hi)" threshold print_info 0
        smoothed_images "[]" "[]"]
    by (simp add: run)
  have a: "\<forall>b\<in>set filtered_generated_images.
            \<exists>r. pixel_ratio b = Some r
               \<and> r = 100 * (of_nat (active_pixels b) / of_nat (total_pixels b))
               \<and> lo \<le> r \<and> r \<le> hi"
  proof
    fix b assume "b \<in> set filtered_generated_images"
    then have "within_range (lo, hi) (pixel_ratio b)" by (simp add: eq)
    then obtain r where r: "pixel_ratio b = Some r" "lo \<le> r" "r \<le> hi"
      by (auto simp: within_range_iff)
    with pixel_ratio_Some [OF r(1)] show "\<exists>r. pixel_ratio b = Some r
               \<and> r = 100 * (of_nat (active_pixels b) / of_nat (total_pixels b))
               \<and> lo \<le> r \<and> r \<le> hi" by simp
  qed
  have b: "set filtered_generated_images \<subseteq> binarize dtype threshold ` set smoothed_images"
    by (auto simp: eq)
  have c: "\<forall>img\<in>set smoothed_images.
            (binarize dtype threshold img \<in> set filtered_generated_images)
              = (\<exists>r. pixel_ratio (binarize dtype threshold img) = Some r \<and> lo \<le> r \<and> r \<le> hi)"
    by (auto simp: eq within_range_iff)
  from a b c show ?thesis by blast
qed

theorem filtered_set_within_range_witness:
  "filter_loop Float32 2 (5, 30) (1/2) False 0
      [[[9/10, 1/10], [1/10, 1/10]], [[9/10, 9/10], [9/10, 1/10]]] ([], [])
      = ([[[1, 0], [0, 0]]], [])
   \<and> pixel_ratio [[1, 0], [0, 0]] = Some 25
   \<and> pixel_ratio (binarize Float32 (1/2) [[9/10, 9/10], [9/10, 1/10]]) = Some 75
   \<and> binarize Float32 (1/2) [[9/10, 9/10], [9/10, 1/10]] \<notin> set [[[1, 0], [0, 0]]]"
proof -
  have run: "filter_loop Float32 2 (5, 30) (1/2) False 0
      [[[9/10, 1/10], [1/10, 1/10]], [[9/10, 9/10], [9/10, 1/10]]] ([], [])
      = ([[[1, 0], [0, 0]]], [])"
    by (simp add: binarize_def float32_half pixel_ratio_def total_pixels_def active_pixels_def
        within_range_def)
  show ?thesis
    using filtered_set_within_range [OF run] run
    by (simp add: binarize_def float32_half pixel_ratio_def total_pixels_def active_pixels_def)
qed

text \<open>
  C6. The filtered set is the binarized candidates that pass the ratio test, in the order
  of generation: a subsequence of the candidates. Three candidates with ratios 6, 10 and
  13 per cent are all kept, in their order, by the default range (5, 14).
\<close>

theorem filter_preserves_generation_order:
  "fst (filter_loop dtype num_samples pixel_ratio_range threshold print_info 0 smoothed_images ([], []))
     = filter (\<lambda>b. within_range pixel_ratio_range (pixel_ratio b))
         (map (binarize dtype threshold) smoothed_images)
   \<and> subseq (fst (filter_loop dtype num_samples pixel_ratio_range threshold print_info 0
                    smoothed_images ([], [])))
            (map (binarize dtype threshold) smoothed_images)
   \<and> (pixel_ratio (binarize dtype threshold s1) = Some 6
        \<and> pixel_ratio (binarize dtype threshold s2) = Some 10
        \<and> pixel_ratio (binarize dtype threshold s3) = Some 13
      \<longrightarrow> fst (filter_loop dtype 3 default_pixel_ratio_range threshold print_info 0 [s1, s2, s3] ([], []))
           = [binarize dtype threshold s1, binarize dtype threshold s2, binarize dtype threshold s3])"
proof -
  have a: "fst (filter_loop dtype num_samples pixel_ratio_range threshold print_info 0 smoothed_images ([], []))
     = filter (\<lambda>b. within_range pixel_ratio_range (pixel_ratio b))
         (map (binarize dtype threshold) smoothed_images)"
    by (simp add: filter_loop_fst)
  have b: "subseq (fst (filter_loop dtype num_samples pixel_ratio_range threshold print_info 0
                    smoothed_images ([], [])))
            (map (binarize dtype threshold) smoothed_images)"
    unfolding a by (rule subseq_filter_left)
  have c: "pixel_ratio (binarize dtype threshold s1) = Some 6
        \<and> pixel_ratio (binarize dtype threshold s2) = Some 10
        \<and> pixel_ratio (binarize dtype threshold s3) = Some 13
      \<longrightarrow> fst (filter_loop dtype 3 default_pixel_ratio_range threshold print_info 0 [s1, s2, s3] ([], []))
           = [binarize dtype threshold s1, binarize dtype threshold s2, binarize dtype threshold s3]"
    by (simp add: filter_loop_fst within_range_def default_pixel_ratio_range_def
        del: filter_loop.simps)
  from a b c show ?thesis by blast
qed

theorem filter_preserves_generation_order_witness:
  "fst (filter_loop Float32 3 (5, 14) (1/2) False 0
      [((replicate 6 1 @ replicate 4 0) # replicate 9 (replicate 10 0)),
       (replicate 10 1 # replicate 9 (replicate 10 0)),
       (replicate 10 1 # (replicate 3 1 @ replicate 7 0) # replicate 8 (replicate 10 0))] ([], []))
    = [((replicate 6 1 @ replicate 4 0) # replicate 9 (replicate 10 0)),
       (replicate 10 1 # replicate 9 (replicate 10 0)),
       (replicate 10 1 # (replicate 3 1 @ replicate 7 0) # replicate 8 (replicate 10 0))]"
proof -
  have h: "pixel_ratio (binarize Float32 (1/2) ((replicate 6 1 @ replicate 4 0) # replicate 9 (replicate 10 0))) = Some 6
     \<and> pixel_ratio (binarize Float32 (1/2) (replicate 10 1 # replicate 9 (replicate 10 0))) = Some 10
     \<and> pixel_ratio (binarize Float32 (1/2) (replicate 10 1 # (replicate 3 1 @ replicate 7 0) # replicate 8 (replicate 10 0)))
         = Some 13"
    by code_simp
  have bz: "binarize Float32 (1/2) ((replicate 6 1 @ replicate 4 0) # replicate 9 (replicate 10 0))
       = ((replicate 6 1 @ replicate 4 0) # replicate 9 (replicate 10 0))"
    "binarize Float32 (1/2) (replicate 10 1 # replicate 9 (replicate 10 0))
       = (replicate 10 1 # replicate 9 (replicate 10 0))"
    "binarize Float32 (1/2) (replicate 10 1 # (replicate 3 1 @ replicate 7 0) # replicate 8 (replicate 10 0))
       = (replicate 10 1 # (replicate 3 1 @ replicate 7 0) # replicate 8 (replicate 10 0))"
    by code_simp+
  show ?thesis
    using filter_preserves_generation_order [of Float32 3 "(5, 14)" "1/2" False "[]"
        "((replicate 6 1 @ replicate 4 0) # replicate 9 (replicate 10 0))"
        "(replicate 10 1 # replicate 9 (replicate 10 0))"
        "(replicate 10 1 # (replicate 3 1 @ replicate 7 0) # replicate 8 (replicate 10 0))", THEN conjunct2, THEN conjunct2, THEN mp, OF h]
    by (simp only: bz default_pixel_ratio_range_def)
qed

text \<open>
  C4. When no binarized image has its pixel ratio within the range, the function writes
  the output of the filter loop followed by the line "No images meet the pixel ratio
  criteria." and returns \<open>None\<close>: it raises nothing, and the result is the same for
  every SSIM function, observation set and \<open>num_images\<close>, none of which is used.
\<close>

theorem empty_filtered_set_returns_none:
  assumes none_in_range:
    "\<forall>img\<in>set generated_images.
       \<not> within_range pixel_ratio_range
           (pixel_ratio (binarize dtype threshold (gaussian_filter img)))"
  shows "generate_and_filter_images dtype gaussian_filter ssim generated_images obs_dataset
           pixel_ratio_range threshold num_images print_info
         = (snd (filter_loop dtype (length generated_images) pixel_ratio_range threshold print_info 0
                   (map gaussian_filter generated_images) ([], [])) @ [NoImagesLine],
            Inr None)
       \<and> generate_and_filter_images dtype gaussian_filter ssim generated_images obs_dataset
           pixel_ratio_range threshold num_images print_info
         = generate_and_filter_images dtype gaussian_filter ssim' generated_images obs_dataset'
           pixel_ratio_range threshold num_images' print_info"
proof -
  have e: "fst (filter_loop dtype (length generated_images) pixel_ratio_range threshold print_info 0
                   (map gaussian_filter generated_images) ([], [])) = []"
    using none_in_range by (simp add: filter_loop_fst del: filter_loop.simps)
  have r: "\<And>s ob k. generate_and_filter_images dtype gaussian_filter s generated_images ob
           pixel_ratio_range threshold k print_info
         = (snd (filter_loop dtype (length generated_images) pixel_ratio_range threshold print_info 0
                   (map gaussian_filter generated_images) ([], [])) @ [NoImagesLine],
            Inr None)"
    using e by (auto simp: generate_and_filter_images_def Let_def split: prod.splits)
  show ?thesis by (simp add: r)
qed

theorem empty_filtered_set_returns_none_witness:
  "generate_and_filter_images Float32 (\<lambda>img. img) (\<lambda>ob g d. 0)
      [[[0, 0], [0, 0]], [[0, 0], [0, 0]]] [[[1, 0], [0, 1]]] (5, 14) (1/2) 10 False
    = ([NoImagesLine], Inr None)"
proof -
  have h: "\<forall>img\<in>set [[[0, 0], [0, 0]], [[0, 0], [0, 0::rat]]].
       \<not> within_range (5, 14) (pixel_ratio (binarize Float32 (1/2) ((\<lambda>img. img) img)))"
    by (simp add: binarize_def float32_half pixel_ratio_def total_pixels_def active_pixels_def
        within_range_def)
  show ?thesis
    using empty_filtered_set_returns_none [OF h, of "\<lambda>ob g d. 0" "[[[1, 0], [0, 1]]]" 10 False]
    by (simp add: binarize_def float32_half pixel_ratio_def total_pixels_def active_pixels_def
        within_range_def)
qed

section \<open>Properties of Phase A\<close>


lemma compare_pair_cases:
  assumes "compare_pair ssim g j ob b = Inr b'"
  obtains m where "mean_squared_error ob (as_float g) = Inr m"
    and "b' = (if below m (lowest_mse b) \<and> ssim ob g (data_range g) > highest_ssim b
               then \<lparr>lowest_mse = Finite m, highest_ssim = ssim ob g (data_range g),
                     best_generated_image = Some g, best_obs_image = Some ob,
                     best_obs_index = Some j\<rparr>
               else b)"
  using assms by (auto simp: compare_pair_def Let_def split: sum.splits if_splits)




text \<open>
  Phase A keeps the running best either in its initial state or matched to one of the
  pairs it has compared.
\<close>

lemma matched_ssim: "matched ssim f obs b \<Longrightarrow> -1 < highest_ssim b"
  by (auto simp: matched_def)

lemma compare_pair_inv:
  assumes c: "compare_pair ssim g j ob b = Inr b'"
    and i: "b = initial_best \<or> matched ssim f obs b"
    and g: "g \<in> set f" and j: "j < length obs" "obs ! j = ob"
  shows "b' = initial_best \<or> matched ssim f obs b'"
proof -
  from c obtain m where m: "mean_squared_error ob (as_float g) = Inr m"
    and b': "b' = (if below m (lowest_mse b) \<and> ssim ob g (data_range g) > highest_ssim b
               then \<lparr>lowest_mse = Finite m, highest_ssim = ssim ob g (data_range g),
                     best_generated_image = Some g, best_obs_image = Some ob,
                     best_obs_index = Some j\<rparr>
               else b)"
    by (rule compare_pair_cases)
  have h: "-1 \<le> highest_ssim b"
    using i matched_ssim [of ssim f obs b] by (auto simp: initial_best_def)
  show ?thesis
  proof (cases "below m (lowest_mse b) \<and> ssim ob g (data_range g) > highest_ssim b")
    case True
    then have "-1 < ssim ob g (data_range g)" using h by simp
    then have "matched ssim f obs b'"
      using True b' m g j by (auto simp: matched_def)
    then show ?thesis ..
  next
    case False
    then have "b' = b" using b' by auto
    then show ?thesis using i by simp
  qed
qed

lemma obs_loop_inv:
  assumes "obs_loop ssim g j rest b = Inr b'"
    and "b = initial_best \<or> matched ssim f obs b"
    and "g \<in> set f" and "drop j obs = rest"
  shows "b' = initial_best \<or> matched ssim f obs b'"
  using assms
proof (induction rest arbitrary: j b)
  case Nil
  then show ?case by simp
next
  case (Cons ob rest)
  from Cons.prems(1) obtain b1 where c: "compare_pair ssim g j ob b = Inr b1"
    and l: "obs_loop ssim g (j + 1) rest b1 = Inr b'"
    by (auto split: sum.splits)
  have j: "j < length obs"
    using Cons.prems(4) by (cases "j < length obs") auto
  have nth: "obs ! j = ob"
    using Cons.prems(4) j by (metis nth_via_drop)
  have d: "drop (j + 1) obs = rest"
    using Cons.prems(4) by (metis Suc_eq_plus1 drop_Suc list.sel(3) tl_drop)
  have "b1 = initial_best \<or> matched ssim f obs b1"
    using compare_pair_inv [OF c Cons.prems(2) Cons.prems(3) j nth] .
  from Cons.IH [OF l this Cons.prems(3) d] show ?case .
qed

lemma generated_loop_inv:
  assumes "generated_loop ssim obs gens b = Inr b'"
    and "b = initial_best \<or> matched ssim f obs b"
    and "set gens \<subseteq> set f"
  shows "b' = initial_best \<or> matched ssim f obs b'"
  using assms
proof (induction gens arbitrary: b)
  case Nil
  then show ?case by simp
next
  case (Cons g gens)
  from Cons.prems(1) obtain b1 where o: "obs_loop ssim g 0 obs b = Inr b1"
    and l: "generated_loop ssim obs gens b1 = Inr b'"
    by (auto split: sum.splits)
  have "b1 = initial_best \<or> matched ssim f obs b1"
    using obs_loop_inv [OF o Cons.prems(2)] Cons.prems(3) by simp
  from Cons.IH [OF l this] Cons.prems(3) show ?case by simp
qed

lemma phase_a_inv:
  "phase_a ssim f obs = Inr b \<Longrightarrow> b = initial_best \<or> matched ssim f obs b"
  unfolding phase_a_def by (rule generated_loop_inv [where b = initial_best]) auto

text \<open>
  A pair whose SSIM is not above the current highest SSIM changes nothing; a pair whose
  SSIM is above \<open>-1\<close> sets the best if it is not set yet, and a best that is set
  stays set.
\<close>

lemma compare_pair_keep:
  assumes "compare_pair ssim g j ob b = Inr b'"
    and "ssim ob g (data_range g) \<le> highest_ssim b"
  shows "b' = b"
  using assms by (auto elim!: compare_pair_cases)

lemma obs_loop_keep:
  assumes "obs_loop ssim g j rest b = Inr b'"
    and "\<forall>ob\<in>set rest. ssim ob g (data_range g) \<le> highest_ssim b"
  shows "b' = b"
  using assms
proof (induction rest arbitrary: j b)
  case Nil
  then show ?case by simp
next
  case (Cons ob rest)
  from Cons.prems(1) obtain b1 where c: "compare_pair ssim g j ob b = Inr b1"
    and l: "obs_loop ssim g (j + 1) rest b1 = Inr b'"
    by (auto split: sum.splits)
  have "b1 = b" using compare_pair_keep [OF c] Cons.prems(2) by simp
  with Cons.IH [OF l] Cons.prems(2) show ?case by simp
qed

lemma generated_loop_keep:
  assumes "generated_loop ssim obs gens b = Inr b'"
    and "\<forall>g\<in>set gens. \<forall>ob\<in>set obs. ssim ob g (data_range g) \<le> highest_ssim b"
  shows "b' = b"
  using assms
proof (induction gens arbitrary: b)
  case Nil
  then show ?case by simp
next
  case (Cons g gens)
  from Cons.prems(1) obtain b1 where o: "obs_loop ssim g 0 obs b = Inr b1"
    and l: "generated_loop ssim obs gens b1 = Inr b'"
    by (auto split: sum.splits)
  have "b1 = b" using obs_loop_keep [OF o] Cons.prems(2) by simp
  with Cons.IH [OF l] Cons.prems(2) show ?case by simp
qed

lemma matched_not_initial: "matched ssim f obs b \<Longrightarrow> b \<noteq> initial_best"
  by (auto simp: matched_def initial_best_def)

lemma compare_pair_matched:
  assumes c: "compare_pair ssim g j ob b = Inr b'"
    and i: "b = initial_best \<or> matched ssim f obs b"
    and g: "g \<in> set f" and j: "j < length obs" "obs ! j = ob"
    and s: "matched ssim f obs b \<or> -1 < ssim ob g (data_range g)"
  shows "matched ssim f obs b'"
proof -
  have i': "b' = initial_best \<or> matched ssim f obs b'"
    using compare_pair_inv [OF c i g j] .
  from c obtain m where b': "b' = (if below m (lowest_mse b) \<and> ssim ob g (data_range g) > highest_ssim b
               then \<lparr>lowest_mse = Finite m, highest_ssim = ssim ob g (data_range g),
                     best_generated_image = Some g, best_obs_image = Some ob,
                     best_obs_index = Some j\<rparr>
               else b)"
    by (rule compare_pair_cases)
  have "b' \<noteq> initial_best"
  proof (cases "matched ssim f obs b")
    case True
    then have "lowest_mse b \<noteq> Infinity" by (auto simp: matched_def)
    then have "lowest_mse b' \<noteq> Infinity" using b' by auto
    then show ?thesis by (auto simp: initial_best_def)
  next
    case False
    then have "b = initial_best" and "-1 < ssim ob g (data_range g)" using i s by auto
    then have "lowest_mse b' = Finite m" using b' by (simp add: initial_best_def)
    then show ?thesis by (auto simp: initial_best_def)
  qed
  with i' show ?thesis by simp
qed

lemma obs_loop_matched:
  assumes "obs_loop ssim g j rest b = Inr b'"
    and "b = initial_best \<or> matched ssim f obs b"
    and "g \<in> set f" and "drop j obs = rest"
    and "matched ssim f obs b \<or> (\<exists>ob\<in>set rest. -1 < ssim ob g (data_range g))"
  shows "matched ssim f obs b'"
  using assms
proof (induction rest arbitrary: j b)
  case Nil
  then show ?case by simp
next
  case (Cons ob rest)
  from Cons.prems(1) obtain b1 where c: "compare_pair ssim g j ob b = Inr b1"
    and l: "obs_loop ssim g (j + 1) rest b1 = Inr b'"
    by (auto split: sum.splits)
  have j: "j < length obs"
    using Cons.prems(4) by (cases "j < length obs") auto
  have nth: "obs ! j = ob"
    using Cons.prems(4) j by (metis nth_via_drop)
  have d: "drop (j + 1) obs = rest"
    using Cons.prems(4) by (metis Suc_eq_plus1 drop_Suc list.sel(3) tl_drop)
  have i1: "b1 = initial_best \<or> matched ssim f obs b1"
    using compare_pair_inv [OF c Cons.prems(2) Cons.prems(3) j nth] .
  have "matched ssim f obs b1 \<or> (\<exists>ob\<in>set rest. -1 < ssim ob g (data_range g))"
  proof (cases "matched ssim f obs b \<or> -1 < ssim ob g (data_range g)")
    case True
    from compare_pair_matched [OF c Cons.prems(2) Cons.prems(3) j nth True] show ?thesis ..
  next
    case False
    then show ?thesis using Cons.prems(5) by auto
  qed
  from Cons.IH [OF l i1 Cons.prems(3) d this] show ?case .
qed

lemma generated_loop_matched:
  assumes "generated_loop ssim obs gens b = Inr b'"
    and "b = initial_best \<or> matched ssim f obs b"
    and "set gens \<subseteq> set f"
    and "matched ssim f obs b
         \<or> (\<exists>g\<in>set gens. \<exists>ob\<in>set obs. -1 < ssim ob g (data_range g))"
  shows "matched ssim f obs b'"
  using assms
proof (induction gens arbitrary: b)
  case Nil
  then show ?case by simp
next
  case (Cons g gens)
  from Cons.prems(1) obtain b1 where o: "obs_loop ssim g 0 obs b = Inr b1"
    and l: "generated_loop ssim obs gens b1 = Inr b'"
    by (auto split: sum.splits)
  have gf: "g \<in> set f" and sub: "set gens \<subseteq> set f" using Cons.prems(3) by auto
  have i1: "b1 = initial_best \<or> matched ssim f obs b1"
    using obs_loop_inv [OF o Cons.prems(2) gf] by simp
  have "matched ssim f obs b1
         \<or> (\<exists>g\<in>set gens. \<exists>ob\<in>set obs. -1 < ssim ob g (data_range g))"
  proof (cases "matched ssim f obs b \<or> (\<exists>ob\<in>set obs. -1 < ssim ob g (data_range g))")
    case True
    have "matched ssim f obs b1"
      by (rule obs_loop_matched [OF o Cons.prems(2) gf _ True]) simp
    then show ?thesis ..
  next
    case False
    then show ?thesis using Cons.prems(4) by auto
  qed
  from Cons.IH [OF l i1 sub this] show ?case .
qed

lemma plot_best_initial: "plot_best initial_best = Inl TypeError"
  by (simp add: plot_best_def initial_best_def)

lemma plot_best_matched:
  "matched ssim f obs b \<Longrightarrow>
     \<exists>g ob j. plot_best b = Inr (g, ob) \<and> best_generated_image b = Some g
        \<and> best_obs_image b = Some ob \<and> best_obs_index b = Some j"
  by (auto simp: matched_def plot_best_def)

text \<open>
  C7. Phase A starts from lowest MSE = +infinity, highest SSIM = -1 and the three best
  references unset. If the SSIM of every pair of a filtered image and an observation
  image is at most -1, a Phase A that runs to its end leaves the best in this initial
  state, the first use of the best generated image raises TypeError, and the function
  returns no tuple. If the SSIM of some pair is above -1, the three references are set
  after a Phase A that runs to its end, and that first use succeeds. (Filtered set and
  observation set need not be assumed non-empty.)
\<close>

theorem phase_a_best_unset_or_set:
  "lowest_mse initial_best = Infinity \<and> highest_ssim initial_best = -1
   \<and> best_generated_image initial_best = None \<and> best_obs_image initial_best = None
   \<and> best_obs_index initial_best = None
   \<and> ((\<forall>g\<in>set filtered. \<forall>ob\<in>set obs_dataset. ssim ob g (data_range g) \<le> -1) \<longrightarrow>
        (\<forall>b. phase_a ssim filtered obs_dataset = Inr b \<longrightarrow>
           b = initial_best \<and> plot_best b = Inl TypeError
           \<and> match_and_rank ssim obs_dataset num_images filtered = Inl TypeError)
        \<and> (\<exists>e. match_and_rank ssim obs_dataset num_images filtered = Inl e))
   \<and> ((\<exists>g\<in>set filtered. \<exists>ob\<in>set obs_dataset. -1 < ssim ob g (data_range g)) \<longrightarrow>
        (\<forall>b. phase_a ssim filtered obs_dataset = Inr b \<longrightarrow>
           best_generated_image b \<noteq> None \<and> best_obs_image b \<noteq> None
           \<and> best_obs_index b \<noteq> None \<and> lowest_mse b \<noteq> Infinity
           \<and> (\<exists>x. plot_best b = Inr x)))"
proof -
  have init: "lowest_mse initial_best = Infinity \<and> highest_ssim initial_best = -1
   \<and> best_generated_image initial_best = None \<and> best_obs_image initial_best = None
   \<and> best_obs_index initial_best = None"
    by (simp add: initial_best_def)
  have unset: "(\<forall>b. phase_a ssim filtered obs_dataset = Inr b \<longrightarrow>
           b = initial_best \<and> plot_best b = Inl TypeError
           \<and> match_and_rank ssim obs_dataset num_images filtered = Inl TypeError)
        \<and> (\<exists>e. match_and_rank ssim obs_dataset num_images filtered = Inl e)"
    if low: "\<forall>g\<in>set filtered. \<forall>ob\<in>set obs_dataset. ssim ob g (data_range g) \<le> -1"
  proof -
    have k: "b = initial_best" if "phase_a ssim filtered obs_dataset = Inr b" for b
      using that low generated_loop_keep [of ssim obs_dataset filtered initial_best b]
      by (simp add: phase_a_def initial_best_def)
    have t: "match_and_rank ssim obs_dataset num_images filtered = Inl TypeError"
      if "phase_a ssim filtered obs_dataset = Inr b" for b
      using that k [OF that] by (simp add: match_and_rank_def plot_best_initial)
    have "\<exists>e. match_and_rank ssim obs_dataset num_images filtered = Inl e"
    proof (cases "phase_a ssim filtered obs_dataset")
      case (Inl e)
      then show ?thesis by (simp add: match_and_rank_def)
    next
      case (Inr b)
      then show ?thesis using t by blast
    qed
    then show ?thesis using k t plot_best_initial by auto
  qed
  have set: "\<forall>b. phase_a ssim filtered obs_dataset = Inr b \<longrightarrow>
           best_generated_image b \<noteq> None \<and> best_obs_image b \<noteq> None
           \<and> best_obs_index b \<noteq> None \<and> lowest_mse b \<noteq> Infinity
           \<and> (\<exists>x. plot_best b = Inr x)"
    if high: "\<exists>g\<in>set filtered. \<exists>ob\<in>set obs_dataset. -1 < ssim ob g (data_range g)"
  proof (intro allI impI)
    fix b assume "phase_a ssim filtered obs_dataset = Inr b"
    then have "generated_loop ssim obs_dataset filtered initial_best = Inr b"
      by (simp add: phase_a_def)
    then have m: "matched ssim filtered obs_dataset b"
      by (rule generated_loop_matched) (use high in auto)
    then show "best_generated_image b \<noteq> None \<and> best_obs_image b \<noteq> None
           \<and> best_obs_index b \<noteq> None \<and> lowest_mse b \<noteq> Infinity
           \<and> (\<exists>x. plot_best b = Inr x)"
      using plot_best_matched [OF m] by (auto simp: matched_def)
  qed
  from init unset set show ?thesis by blast
qed

theorem phase_a_best_unset_or_set_witness:
  "phase_a (\<lambda>ob g d. -1) [[[1, 0], [0, 0]]] [[[1, 1/2], [0, 0]]] = Inr initial_best
   \<and> match_and_rank (\<lambda>ob g d. -1) [[[1, 1/2], [0, 0]]] 10 [[[1, 0], [0, 0]]] = Inl TypeError
   \<and> phase_a (\<lambda>ob g d. 1/2) [[[1, 0], [0, 0]]] [[[1, 1/2], [0, 0]]]
       = Inr \<lparr>lowest_mse = Finite (1/16), highest_ssim = 1/2,
              best_generated_image = Some [[1, 0], [0, 0]], best_obs_image = Some [[1, 1/2], [0, 0]],
              best_obs_index = Some 0\<rparr>
   \<and> plot_best \<lparr>lowest_mse = Finite (1/16), highest_ssim = 1/2,
              best_generated_image = Some [[1, 0], [0, 0]], best_obs_image = Some [[1, 1/2], [0, 0]],
              best_obs_index = Some 0\<rparr> = Inr ([[1, 0], [0, 0]], [[1, 1/2], [0, 0]])"
proof -
  have a: "phase_a (\<lambda>ob g d. -1) [[[1, 0], [0, 0]]] [[[1, 1/2], [0, 0]]] = Inr initial_best"
    by (simp add: phase_a_def compare_pair_def mean_squared_error_def as_float_def
        initial_best_def Let_def)
  have b: "phase_a (\<lambda>ob g d. 1/2) [[[1, 0], [0, 0]]] [[[1, 1/2], [0, 0]]]
       = Inr \<lparr>lowest_mse = Finite (1/16), highest_ssim = 1/2,
              best_generated_image = Some [[1, 0], [0, 0]], best_obs_image = Some [[1, 1/2], [0, 0]],
              best_obs_index = Some 0\<rparr>"
    by (simp add: phase_a_def compare_pair_def mean_squared_error_def as_float_def
        initial_best_def power2_eq_square Let_def)
  show ?thesis
    using phase_a_best_unset_or_set [of "[[[1, 0], [0, 0]]]" "[[[1, 1/2], [0, 0]]]" "\<lambda>ob g d. -1" 10]
      phase_a_best_unset_or_set [of "[[[1, 0], [0, 0]]]" "[[[1, 1/2], [0, 0]]]" "\<lambda>ob g d. 1/2" 10]
      a b
    by (simp add: plot_best_def)
qed

section \<open>Properties of Phase B and of the returned tuple\<close>

text \<open>
  \<open>mse_list\<close> holds, in the order of the filtered set, the MSE of every filtered
  image against the best generated image.
\<close>

lemma mse_loop_spec:
  assumes "mse_loop bg gens acc = Inr ml"
  shows "\<exists>ms. ml = acc @ ms
           \<and> map (\<lambda>g. mean_squared_error (as_float bg) (as_float g)) gens = map Inr ms"
  using assms
proof (induction gens arbitrary: acc)
  case Nil
  then show ?case by simp
next
  case (Cons g gens)
  from Cons.prems obtain m where m: "mean_squared_error (as_float bg) (as_float g) = Inr m"
    and l: "mse_loop bg gens (acc @ [m]) = Inr ml"
    by (auto split: sum.splits)
  from Cons.IH [OF l] obtain ms where "ml = (acc @ [m]) @ ms"
    and "map (\<lambda>g. mean_squared_error (as_float bg) (as_float g)) gens = map Inr ms"
    by blast
  then have "ml = acc @ (m # ms)
     \<and> map (\<lambda>g. mean_squared_error (as_float bg) (as_float g)) (g # gens) = map Inr (m # ms)"
    using m by simp
  then show ?case by blast
qed

lemma mse_list_nth:
  assumes "mse_loop bg f [] = Inr ml"
  shows "length ml = length f"
    and "i < length f \<Longrightarrow> mean_squared_error (as_float bg) (as_float (f ! i)) = Inr (ml ! i)"
proof -
  from mse_loop_spec [OF assms]
  have eq: "map (\<lambda>g. mean_squared_error (as_float bg) (as_float g)) f = map Inr ml"
    by simp
  from eq show len: "length ml = length f" by (metis length_map)
  assume i: "i < length f"
  from eq have "map (\<lambda>g. mean_squared_error (as_float bg) (as_float g)) f ! i = map Inr ml ! i"
    by simp
  then show "mean_squared_error (as_float bg) (as_float (f ! i)) = Inr (ml ! i)"
    using i len by simp
qed

text \<open>
  The keys read through \<open>argsort\<close> are the sorted list, so the first
  \<open>num_images\<close> of them are the smallest MSEs in ascending order.
\<close>

lemma argsort_set: "set (argsort xs) = {0..<length xs}"
  by (simp add: argsort_def)

lemma argsort_length: "length (argsort xs) = length xs"
  by (simp add: argsort_def)

lemma argsort_sort: "map (\<lambda>i. xs ! i) (argsort xs) = sort xs"
proof -
  have "mset (map (\<lambda>i. xs ! i) (argsort xs)) = mset (map (\<lambda>i. xs ! i) [0..<length xs])"
    by (simp add: argsort_def)
  also have "\<dots> = mset xs" by (simp add: map_nth)
  finally have m: "mset (map (\<lambda>i. xs ! i) (argsort xs)) = mset xs" .
  have s: "sorted (map (\<lambda>i. xs ! i) (argsort xs))"
    by (simp add: argsort_def)
  from properties_for_sort [OF m s] show ?thesis by simp
qed

lemma top_mses_sort:
  "0 \<le> n \<Longrightarrow> map (\<lambda>i. ml ! i) (top_indices n ml) = take (nat n) (sort ml)"
  by (simp add: top_indices_def slice_to_def take_map [symmetric] argsort_sort)

lemma top_indices_length:
  "0 \<le> n \<Longrightarrow> length (top_indices n ml) = nat (min n (int (length ml)))"
  by (auto simp: top_indices_def slice_to_def argsort_length min_def)

lemma top_indices_range:
  "i \<in> set (top_indices n ml) \<Longrightarrow> i < length ml"
proof -
  assume "i \<in> set (top_indices n ml)"
  then have "i \<in> set (argsort ml)"
    by (auto simp: top_indices_def slice_to_def dest: in_set_takeD split: if_splits)
  then show ?thesis by (simp add: argsort_set)
qed

text \<open>
  The second plot lets the function through only for \<open>num_images\<close> of 11 or more,
  with at least min(\<open>num_images\<close>, 100) images ranked; for the default of 10 it
  raises IndexError.
\<close>

lemma plot_top_success:
  "plot_top n ti = Inr u \<Longrightarrow> 11 \<le> n \<and> min n 100 \<le> int (length ti)"
  by (auto simp: plot_top_def Let_def split: if_splits)

lemma plot_top_default: "plot_top default_num_images ti = Inl IndexError"
  by (simp add: plot_top_def default_num_images_def)

text \<open>
  An MSE is never negative, it is 0 for an image against itself, and two arrays whose MSE
  is 0 are equal.
\<close>

lemma same_shape_concat:
  "map length a = map length b \<Longrightarrow> concat a = concat b \<Longrightarrow> a = b"
proof (induction a arbitrary: b)
  case Nil
  then show ?case by simp
next
  case (Cons x a)
  then obtain y b' where b: "b = y # b'" by (cases b) auto
  with Cons.prems have "length x = length y" "x @ concat a = y @ concat b'"
    "map length a = map length b'" by auto
  then have "x = y" "concat a = concat b'" by auto
  with Cons.IH [OF \<open>map length a = map length b'\<close>] b show ?case by simp
qed

lemma mse_nonneg: "mean_squared_error a b = Inr m \<Longrightarrow> 0 \<le> m"
  by (auto simp: mean_squared_error_def split: if_splits
      intro!: divide_nonneg_nonneg sum_list_nonneg)

lemma mse_self: "mean_squared_error a b = Inr m \<Longrightarrow> mean_squared_error a a = Inr 0"
proof -
  assume "mean_squared_error a b = Inr m"
  then have ne: "concat a \<noteq> []" by (auto simp: mean_squared_error_def split: if_splits)
  have "sum_list (map2 (\<lambda>x y. (x - y)\<^sup>2) xs xs) = (0::rat)" for xs
    by (induction xs) auto
  with ne show ?thesis by (simp add: mean_squared_error_def)
qed

lemma map2_zero_eq:
  fixes xs ys :: "rat list"
  assumes "length xs = length ys" "sum_list (map2 (\<lambda>x y. (x - y)\<^sup>2) xs ys) = 0"
  shows "xs = ys"
  using assms
proof (induction xs ys rule: list_induct2)
  case Nil
  then show ?case by simp
next
  case (Cons x xs y ys)
  have n: "0 \<le> sum_list (map2 (\<lambda>x y. (x - y)\<^sup>2) xs ys)"
    by (rule sum_list_nonneg) auto
  have "(x - y)\<^sup>2 + sum_list (map2 (\<lambda>x y. (x - y)\<^sup>2) xs ys) = 0"
    using Cons.prems by simp
  with n have "(x - y)\<^sup>2 = 0" "sum_list (map2 (\<lambda>x y. (x - y)\<^sup>2) xs ys) = 0"
    by (auto simp: add_nonneg_eq_0_iff)
  with Cons.IH show ?case by simp
qed

lemma mse_zero_eq:
  assumes "mean_squared_error a b = Inr 0"
  shows "a = b"
proof -
  from assms have sh: "map length a = map length b" and ne: "concat a \<noteq> []"
    and z: "sum_list (map2 (\<lambda>x y. (x - y)\<^sup>2) (concat a) (concat b))
              / of_nat (length (concat a)) = (0::rat)"
    by (auto simp: mean_squared_error_def split: if_splits)
  from sh have len: "length (concat a) = length (concat b)"
    by (simp add: length_concat)
  from ne have "length (concat a) \<noteq> 0"
    by (metis length_0_conv)
  then have "of_nat (length (concat a)) \<noteq> (0::rat)"
    by (metis of_nat_eq_0_iff)
  with z have "sum_list (map2 (\<lambda>x y. (x - y)\<^sup>2) (concat a) (concat b)) = 0"
    by (metis divide_eq_0_iff)
  from map2_zero_eq [OF len this] sh show ?thesis by (rule same_shape_concat [rotated])
qed

lemma as_float_inj: "as_float a = as_float b \<Longrightarrow> a = b"
proof -
  have "inj (map (map (of_int :: int \<Rightarrow> rat)))"
    by (simp add: inj_def)
  then show "as_float a = as_float b \<Longrightarrow> a = b"
    by (simp add: as_float_def inj_def)
qed

text \<open>What a run that returns the tuple has gone through.\<close>

lemma run_success:
  assumes "generate_and_filter_images d gf ssim gens obs r t n p = (out, Inr (Some res))"
  shows "match_and_rank ssim obs n
           (fst (filter_loop d (length gens) r t p 0 (map gf gens) ([], []))) = Inr res"
  using assms
  by (auto simp: generate_and_filter_images_def Let_def split: prod.splits if_splits sum.splits)

lemma match_and_rank_success:
  assumes "match_and_rank ssim obs n f = Inr (f', bg, bo, bi, lm, ti, tm)"
  obtains b ml where "phase_a ssim f obs = Inr b" and "plot_best b = Inr (bg, bo)"
    and "bi = best_obs_index b"
    and "lm = lowest_mse b" and "f' = f" and "mse_loop bg f [] = Inr ml"
    and "ti = map (\<lambda>i. f ! i) (top_indices n ml)"
    and "tm = map (\<lambda>i. ml ! i) (top_indices n ml)"
    and "plot_top n ti = Inr ()"
  using assms
  by (auto simp: match_and_rank_def Let_def split: sum.splits prod.splits)

lemma success_matched:
  assumes a: "phase_a ssim f obs = Inr b" and p: "plot_best b = Inr (bg, bo)"
  shows "bg \<in> set f
       \<and> (\<exists>j. best_obs_index b = Some j \<and> j < length obs \<and> obs ! j = bo)
       \<and> (\<exists>m. lowest_mse b = Finite m \<and> mean_squared_error bo (as_float bg) = Inr m)"
proof -
  from phase_a_inv [OF a] p have "matched ssim f obs b"
    by (auto simp: plot_best_initial)
  then show ?thesis using p by (auto simp: matched_def plot_best_def)
qed

lemma sort_first_le:
  fixes xs :: "rat list"
  assumes "x \<in> set xs"
  shows "sort xs ! 0 \<le> x"
proof -
  from assms have "x \<in> set (sort xs)" by simp
  then obtain k where k: "k < length (sort xs)" "sort xs ! k = x"
    by (metis in_set_conv_nth)
  have "sort xs ! 0 \<le> sort xs ! k"
    by (rule sorted_nth_mono) (use k in auto)
  with k show ?thesis by simp
qed

lemma ranked:
  assumes n: "0 \<le> n" and ml: "mse_loop bg f [] = Inr ml"
  shows "length ml = length f"
    and "\<forall>i<length f. mean_squared_error (as_float bg) (as_float (f ! i)) = Inr (ml ! i)"
    and "map (\<lambda>i. ml ! i) (top_indices n ml) = take (nat n) (sort ml)"
    and "sorted (map (\<lambda>i. ml ! i) (top_indices n ml))"
    and "length (top_indices n ml) = nat (min n (int (length f)))"
    and "\<forall>k<length (top_indices n ml).
           map (\<lambda>i. f ! i) (top_indices n ml) ! k \<in> set f
           \<and> mean_squared_error (as_float bg) (as_float (map (\<lambda>i. f ! i) (top_indices n ml) ! k))
               = Inr (map (\<lambda>i. ml ! i) (top_indices n ml) ! k)"
proof -
  show len: "length ml = length f" by (rule mse_list_nth(1) [OF ml])
  show all: "\<forall>i<length f. mean_squared_error (as_float bg) (as_float (f ! i)) = Inr (ml ! i)"
    using mse_list_nth(2) [OF ml] by blast
  show "map (\<lambda>i. ml ! i) (top_indices n ml) = take (nat n) (sort ml)"
    by (rule top_mses_sort [OF n])
  then show "sorted (map (\<lambda>i. ml ! i) (top_indices n ml))"
    by (simp add: sorted_wrt_take)
  show "length (top_indices n ml) = nat (min n (int (length f)))"
    using top_indices_length [OF n, of ml] len by simp
  show "\<forall>k<length (top_indices n ml).
           map (\<lambda>i. f ! i) (top_indices n ml) ! k \<in> set f
           \<and> mean_squared_error (as_float bg) (as_float (map (\<lambda>i. f ! i) (top_indices n ml) ! k))
               = Inr (map (\<lambda>i. ml ! i) (top_indices n ml) ! k)"
  proof (intro allI impI)
    fix k assume k: "k < length (top_indices n ml)"
    then have "top_indices n ml ! k \<in> set (top_indices n ml)" by simp
    then have "top_indices n ml ! k < length f"
      using top_indices_range len by metis
    then show "map (\<lambda>i. f ! i) (top_indices n ml) ! k \<in> set f
           \<and> mean_squared_error (as_float bg) (as_float (map (\<lambda>i. f ! i) (top_indices n ml) ! k))
               = Inr (map (\<lambda>i. ml ! i) (top_indices n ml) ! k)"
      using k all by simp
  qed
qed

lemma first_ranked:
  assumes n: "1 \<le> n" and bg: "bg \<in> set f" and ml: "mse_loop bg f [] = Inr ml"
  shows "top_indices n ml \<noteq> []"
    and "map (\<lambda>i. ml ! i) (top_indices n ml) ! 0 = 0"
    and "map (\<lambda>i. f ! i) (top_indices n ml) ! 0 = bg"
proof -
  have n0: "0 \<le> n" using n by simp
  have len: "length ml = length f" by (rule mse_list_nth(1) [OF ml])
  from bg obtain i0 where i0: "i0 < length f" "f ! i0 = bg"
    by (auto simp: in_set_conv_nth)
  have m0: "mean_squared_error (as_float bg) (as_float bg) = Inr (ml ! i0)"
    using mse_list_nth(2) [OF ml i0(1)] i0(2) by simp
  then have "ml ! i0 = 0" using mse_self [OF m0] by simp
  then have zero_in: "0 \<in> set ml" using i0(1) len by (metis nth_mem)
  have pos: "0 < length (top_indices n ml)"
    using top_indices_length [OF n0, of ml] len i0(1) n by (cases f) auto
  then show ne: "top_indices n ml \<noteq> []" by simp
  have tm: "map (\<lambda>i. ml ! i) (top_indices n ml) = take (nat n) (sort ml)"
    by (rule top_mses_sort [OF n0])
  have first: "map (\<lambda>i. ml ! i) (top_indices n ml) ! 0 = sort ml ! 0"
    using tm n by simp
  have le: "sort ml ! 0 \<le> 0" by (rule sort_first_le [OF zero_in])
  have j: "top_indices n ml ! 0 < length f"
    using top_indices_range [of "top_indices n ml ! 0" n ml] pos len by simp
  have mj: "mean_squared_error (as_float bg) (as_float (f ! (top_indices n ml ! 0)))
      = Inr (ml ! (top_indices n ml ! 0))"
    by (rule mse_list_nth(2) [OF ml j])
  have ge: "0 \<le> ml ! (top_indices n ml ! 0)" by (rule mse_nonneg [OF mj])
  have eq: "map (\<lambda>i. ml ! i) (top_indices n ml) ! 0 = ml ! (top_indices n ml ! 0)"
    using pos by simp
  show z: "map (\<lambda>i. ml ! i) (top_indices n ml) ! 0 = 0"
    using first le ge eq by simp
  then have "mean_squared_error (as_float bg) (as_float (f ! (top_indices n ml ! 0))) = Inr 0"
    using mj eq by simp
  then have "as_float bg = as_float (f ! (top_indices n ml ! 0))" by (rule mse_zero_eq)
  then have "f ! (top_indices n ml ! 0) = bg" using as_float_inj by metis
  then show "map (\<lambda>i. f ! i) (top_indices n ml) ! 0 = bg" using pos by simp
qed

text \<open>
  C9. When the function returns the tuple, its fields agree: \<open>best_obs_index\<close> is
  set to an index of the observation set and \<open>best_obs_image\<close> is the observation
  image at that index; \<open>lowest_mse\<close> is the MSE of \<open>best_obs_image\<close> against
  \<open>best_generated_image\<close>; and \<open>best_generated_image\<close> is an element of the
  returned filtered set, which is the list the filter loop built.
\<close>

theorem returned_match_consistent:
  assumes run: "generate_and_filter_images dtype gaussian_filter ssim generated_images obs_dataset
                  pixel_ratio_range threshold num_images print_info
                = (out, Inr (Some (filtered, best_generated, best_obs, best_index, lowest,
                                   top_images, top_mses)))"
  shows "(\<exists>j. best_index = Some j \<and> j < length obs_dataset \<and> best_obs = obs_dataset ! j)
       \<and> (\<exists>m. lowest = Finite m
              \<and> mean_squared_error best_obs (as_float best_generated) = Inr m)
       \<and> best_generated \<in> set filtered
       \<and> filtered = fst (filter_loop dtype (length generated_images) pixel_ratio_range threshold
                            print_info 0 (map gaussian_filter generated_images) ([], []))"
proof -
  let ?f = "fst (filter_loop dtype (length generated_images) pixel_ratio_range threshold
                   print_info 0 (map gaussian_filter generated_images) ([], []))"
  from run_success [OF run]
  have mr: "match_and_rank ssim obs_dataset num_images ?f
      = Inr (filtered, best_generated, best_obs, best_index, lowest, top_images, top_mses)" .
  from mr obtain b where a: "phase_a ssim ?f obs_dataset = Inr b"
    and p: "plot_best b = Inr (best_generated, best_obs)"
    and i: "best_index = best_obs_index b"
    and l: "lowest = lowest_mse b" and f: "filtered = ?f"
    by (rule match_and_rank_success)
  from success_matched [OF a p] i l f show ?thesis by auto
qed

theorem returned_match_consistent_witness:
  "generate_and_filter_images Float32 (\<lambda>img. img) (\<lambda>ob g d. if ob = as_float g then 1 else 0)
      (replicate 10 [[9/10, 1/10], [1/10, 1/10]] @ [[[1/5, 4/5], [1/10, 1/10]]]) [[[0, 1], [0, 0]], [[1, 0], [0, 0]]] (5, 60) (1/2) 11 False
   = ([TotalValidLine 11],
      Inr (Some (replicate 10 [[1, 0], [0, 0]] @ [[[0, 1], [0, 0]]], [[1, 0], [0, 0]], [[1, 0], [0, 0]], Some 1, Finite 0,
                 replicate 10 [[1, 0], [0, 0]] @ [[[0, 1], [0, 0]]], replicate 10 0 @ [1/2])))
   \<and> ((\<exists>j. Some 1 = Some j \<and> j < length [[[0, 1], [0, 0]], [[1, 0], [0, 0::rat]]]
            \<and> [[1, 0], [0, 0]] = [[[0, 1], [0, 0]], [[1, 0], [0, 0::rat]]] ! j)
      \<and> (\<exists>m. Finite 0 = Finite m \<and> mean_squared_error [[1, 0], [0, 0]] (as_float [[1, 0], [0, 0]]) = Inr m)
      \<and> [[1, 0], [0, 0::int]] \<in> set (replicate 10 [[1, 0], [0, 0]] @ [[[0, 1], [0, 0]]])
      \<and> replicate 10 [[1, 0], [0, 0]] @ [[[0, 1], [0, 0]]]
          = fst (filter_loop Float32 (length (replicate 10 [[9/10, 1/10], [1/10, 1/10::rat]] @ [[[1/5, 4/5], [1/10, 1/10]]])) (5, 60) (1/2)
                   False 0 (map (\<lambda>img. img) (replicate 10 [[9/10, 1/10], [1/10, 1/10]] @ [[[1/5, 4/5], [1/10, 1/10]]]))
                   ([], [])))"
proof -
  have run: "generate_and_filter_images Float32 (\<lambda>img. img) (\<lambda>ob g d. if ob = as_float g then 1 else 0)
      (replicate 10 [[9/10, 1/10], [1/10, 1/10]] @ [[[1/5, 4/5], [1/10, 1/10]]]) [[[0, 1], [0, 0]], [[1, 0], [0, 0]]] (5, 60) (1/2) 11 False
   = ([TotalValidLine 11],
      Inr (Some (replicate 10 [[1, 0], [0, 0]] @ [[[0, 1], [0, 0]]], [[1, 0], [0, 0]], [[1, 0], [0, 0]], Some 1, Finite 0,
                 replicate 10 [[1, 0], [0, 0]] @ [[[0, 1], [0, 0]]], replicate 10 0 @ [1/2])))"
    by code_simp
  show ?thesis
    by (rule conjI [OF run returned_match_consistent [OF run]])
qed

text \<open>
  C3. Phase B computes, for every filtered image, the MSE against the best generated
  image. For a non-negative \<open>num_images\<close> the selected MSEs are the first
  \<open>num_images\<close> of the sorted \<open>mse_list\<close>: ascending, and
  min(\<open>num_images\<close>, number of filtered images) many. So, when the function returns
  the tuple, \<open>top_mses\<close> is sorted ascending, \<open>top_images\<close> and
  \<open>top_mses\<close> have exactly that length, and each entry of \<open>top_mses\<close> is the
  MSE of the filtered image at the same place of \<open>top_images\<close>. The default of
  \<open>num_images\<close> is 10.
\<close>

theorem ranked_top_sorted_truncated:
  "(0 \<le> num_images \<and> mse_loop best_generated filtered [] = Inr mse_list \<longrightarrow>
      length mse_list = length filtered
      \<and> (\<forall>i<length filtered.
            mean_squared_error (as_float best_generated) (as_float (filtered ! i))
              = Inr (mse_list ! i))
      \<and> map (\<lambda>i. mse_list ! i) (top_indices num_images mse_list)
          = take (nat num_images) (sort mse_list)
      \<and> sorted (map (\<lambda>i. mse_list ! i) (top_indices num_images mse_list))
      \<and> length (top_indices num_images mse_list)
          = nat (min num_images (int (length filtered))))
   \<and> (generate_and_filter_images dtype gaussian_filter ssim generated_images obs_dataset
          pixel_ratio_range threshold num_images' print_info
        = (out, Inr (Some (filtered', best_generated', best_obs, best_index, lowest,
                           top_images, top_mses))) \<longrightarrow>
      sorted top_mses
      \<and> length top_images = nat (min num_images' (int (length filtered')))
      \<and> length top_mses = length top_images
      \<and> (\<forall>k<length top_images.
            top_images ! k \<in> set filtered'
            \<and> mean_squared_error (as_float best_generated') (as_float (top_images ! k))
                = Inr (top_mses ! k))
      \<and> (\<exists>ml. mse_loop best_generated' filtered' [] = Inr ml
              \<and> length ml = length filtered'
              \<and> top_mses = take (nat num_images') (sort ml)))
   \<and> default_num_images = 10"
proof -
  have a: "length mse_list = length filtered
      \<and> (\<forall>i<length filtered.
            mean_squared_error (as_float best_generated) (as_float (filtered ! i))
              = Inr (mse_list ! i))
      \<and> map (\<lambda>i. mse_list ! i) (top_indices num_images mse_list)
          = take (nat num_images) (sort mse_list)
      \<and> sorted (map (\<lambda>i. mse_list ! i) (top_indices num_images mse_list))
      \<and> length (top_indices num_images mse_list)
          = nat (min num_images (int (length filtered)))"
    if "0 \<le> num_images" and "mse_loop best_generated filtered [] = Inr mse_list"
    using ranked(1-5) [OF that] by blast
  have b: "sorted top_mses
      \<and> length top_images = nat (min num_images' (int (length filtered')))
      \<and> length top_mses = length top_images
      \<and> (\<forall>k<length top_images.
            top_images ! k \<in> set filtered'
            \<and> mean_squared_error (as_float best_generated') (as_float (top_images ! k))
                = Inr (top_mses ! k))
      \<and> (\<exists>ml. mse_loop best_generated' filtered' [] = Inr ml
              \<and> length ml = length filtered'
              \<and> top_mses = take (nat num_images') (sort ml))"
    if run: "generate_and_filter_images dtype gaussian_filter ssim generated_images obs_dataset
          pixel_ratio_range threshold num_images' print_info
        = (out, Inr (Some (filtered', best_generated', best_obs, best_index, lowest,
                           top_images, top_mses)))"
  proof -
    from run_success [OF run] obtain ml f where f: "filtered' = f"
      and ml: "mse_loop best_generated' f [] = Inr ml"
      and ti: "top_images = map (\<lambda>i. f ! i) (top_indices num_images' ml)"
      and tm: "top_mses = map (\<lambda>i. ml ! i) (top_indices num_images' ml)"
      and pl: "plot_top num_images' top_images = Inr ()"
      by (rule match_and_rank_success)
    from plot_top_success [OF pl] have n: "0 \<le> num_images'" by simp
    show ?thesis
      using ranked [OF n ml] ml unfolding f ti tm by simp
  qed
  from a b show ?thesis by (simp add: default_num_images_def)
qed

theorem ranked_top_sorted_truncated_witness:
  "generate_and_filter_images Float32 (\<lambda>img. img) (\<lambda>ob g d. 0)
      [[[1, 0], [0, 0]], [[0, 1], [1, 1]], [[1, 1], [0, 0]], [[1, 1], [1, 0]], [[1, 1], [1, 1]], [[1, 0], [0, 0]],
       [[1, 0], [1, 0]], [[0, 0], [0, 1]], [[1, 0], [0, 1]], [[1, 0], [1, 1]], [[0, 1], [0, 0]], [[0, 0], [0, 0]], [[0, 0], [1, 0]]]
      [[[1, 0], [0, 1/2]]] (5, 100) (1/2) 11 False
   = ([TotalValidLine 12],
      Inr (Some
        ([[[1, 0], [0, 0]], [[0, 1], [1, 1]], [[1, 1], [0, 0]], [[1, 1], [1, 0]],
          [[1, 1], [1, 1]], [[1, 0], [0, 0]], [[1, 0], [1, 0]], [[0, 0], [0, 1]],
          [[1, 0], [0, 1]], [[1, 0], [1, 1]], [[0, 1], [0, 0]], [[0, 0], [1, 0]]],
         [[1, 0], [0, 0]], [[1, 0], [0, 1 / 2]], Some 0, Finite (1 / 16),
         [[[1, 0], [0, 0]], [[1, 0], [0, 0]], [[1, 1], [0, 0]], [[1, 0], [1, 0]],
          [[1, 0], [0, 1]], [[1, 1], [1, 0]], [[0, 0], [0, 1]], [[1, 0], [1, 1]],
          [[0, 1], [0, 0]], [[0, 0], [1, 0]], [[1, 1], [1, 1]]],
         [0, 0, 1 / 4, 1 / 4, 1 / 4, 1 / 2, 1 / 2, 1 / 2, 1 / 2, 1 / 2, 3 / 4])))
   \<and> sorted [0, 0, 1 / 4, 1 / 4, 1 / 4, 1 / 2, 1 / 2, 1 / 2, 1 / 2, 1 / 2, 3 / 4 :: rat]
   \<and> mse_loop [[1, 0], [0, 0]] [[[1, 0], [0, 0]], [[0, 1], [1, 1]], [[1, 1], [0, 0]]] []
        = Inr [0, 1, 1 / 4]
   \<and> map (\<lambda>i. [0, 1, 1 / 4 :: rat] ! i) (top_indices 2 [0, 1, 1 / 4]) = [0, 1 / 4]"
proof -
  have run: "generate_and_filter_images Float32 (\<lambda>img. img) (\<lambda>ob g d. 0)
      [[[1, 0], [0, 0]], [[0, 1], [1, 1]], [[1, 1], [0, 0]], [[1, 1], [1, 0]], [[1, 1], [1, 1]], [[1, 0], [0, 0]],
       [[1, 0], [1, 0]], [[0, 0], [0, 1]], [[1, 0], [0, 1]], [[1, 0], [1, 1]], [[0, 1], [0, 0]], [[0, 0], [0, 0]], [[0, 0], [1, 0]]]
      [[[1, 0], [0, 1/2]]] (5, 100) (1/2) 11 False
   = ([TotalValidLine 12],
      Inr (Some
        ([[[1, 0], [0, 0]], [[0, 1], [1, 1]], [[1, 1], [0, 0]], [[1, 1], [1, 0]],
          [[1, 1], [1, 1]], [[1, 0], [0, 0]], [[1, 0], [1, 0]], [[0, 0], [0, 1]],
          [[1, 0], [0, 1]], [[1, 0], [1, 1]], [[0, 1], [0, 0]], [[0, 0], [1, 0]]],
         [[1, 0], [0, 0]], [[1, 0], [0, 1 / 2]], Some 0, Finite (1 / 16),
         [[[1, 0], [0, 0]], [[1, 0], [0, 0]], [[1, 1], [0, 0]], [[1, 0], [1, 0]],
          [[1, 0], [0, 1]], [[1, 1], [1, 0]], [[0, 0], [0, 1]], [[1, 0], [1, 1]],
          [[0, 1], [0, 0]], [[0, 0], [1, 0]], [[1, 1], [1, 1]]],
         [0, 0, 1 / 4, 1 / 4, 1 / 4, 1 / 2, 1 / 2, 1 / 2, 1 / 2, 1 / 2, 3 / 4])))"
    by code_simp
  have loop: "mse_loop [[1, 0], [0, 0]] [[[1, 0], [0, 0]], [[0, 1], [1, 1]], [[1, 1], [0, 0]]] []
        = Inr [0, 1, 1 / 4]"
    by code_simp
  have two: "(0::int) \<le> 2" by simp
  note top = ranked_top_sorted_truncated [THEN conjunct1, rule_format, OF conjI [OF two loop]]
  note ret = ranked_top_sorted_truncated [THEN conjunct2, THEN conjunct1, rule_format, OF run]
  have s: "sorted [0, 0, 1 / 4, 1 / 4, 1 / 4, 1 / 2, 1 / 2, 1 / 2, 1 / 2, 1 / 2, 3 / 4 :: rat]"
    using ret by (rule conjunct1)
  have t: "map (\<lambda>i. [0, 1, 1 / 4 :: rat] ! i) (top_indices 2 [0, 1, 1 / 4]) = [0, 1 / 4]"
    using top by (simp add: sort_key_def [symmetric]) 
  from run s loop t show ?thesis by blast
qed


text \<open>
  C10. With \<open>num_images\<close> at least 1 and the best generated image in the filtered
  set, the first selected MSE is 0 and the first selected image is the best generated
  image. So, when the function returns the tuple with \<open>num_images\<close> at least 1,
  \<open>top_mses[0]\<close> is 0 and \<open>top_images[0]\<close> equals
  \<open>best_generated_image\<close>.
\<close>

theorem first_ranked_is_best:
  "(1 \<le> num_images \<and> best_generated \<in> set filtered
      \<and> mse_loop best_generated filtered [] = Inr mse_list \<longrightarrow>
      top_indices num_images mse_list \<noteq> []
      \<and> map (\<lambda>i. mse_list ! i) (top_indices num_images mse_list) ! 0 = 0
      \<and> map (\<lambda>i. filtered ! i) (top_indices num_images mse_list) ! 0 = best_generated)
   \<and> (1 \<le> num_images'
      \<and> generate_and_filter_images dtype gaussian_filter ssim generated_images obs_dataset
          pixel_ratio_range threshold num_images' print_info
        = (out, Inr (Some (filtered', best_generated', best_obs, best_index, lowest,
                           top_images, top_mses))) \<longrightarrow>
      top_images \<noteq> [] \<and> top_mses \<noteq> []
      \<and> top_mses ! 0 = 0 \<and> top_images ! 0 = best_generated')"
proof -
  have a: "top_indices num_images mse_list \<noteq> []
      \<and> map (\<lambda>i. mse_list ! i) (top_indices num_images mse_list) ! 0 = 0
      \<and> map (\<lambda>i. filtered ! i) (top_indices num_images mse_list) ! 0 = best_generated"
    if "1 \<le> num_images" and "best_generated \<in> set filtered"
      and "mse_loop best_generated filtered [] = Inr mse_list"
    using first_ranked [OF that] by blast
  have b: "top_images \<noteq> [] \<and> top_mses \<noteq> []
      \<and> top_mses ! 0 = 0 \<and> top_images ! 0 = best_generated'"
    if n: "1 \<le> num_images'"
      and run: "generate_and_filter_images dtype gaussian_filter ssim generated_images obs_dataset
          pixel_ratio_range threshold num_images' print_info
        = (out, Inr (Some (filtered', best_generated', best_obs, best_index, lowest,
                           top_images, top_mses)))"
  proof -
    from run_success [OF run] obtain b ml f where f: "filtered' = f"
      and pa: "phase_a ssim f obs_dataset = Inr b"
      and pb: "plot_best b = Inr (best_generated', best_obs)"
      and ml: "mse_loop best_generated' f [] = Inr ml"
      and ti: "top_images = map (\<lambda>i. f ! i) (top_indices num_images' ml)"
      and tm: "top_mses = map (\<lambda>i. ml ! i) (top_indices num_images' ml)"
      by (rule match_and_rank_success)
    from success_matched [OF pa pb] have bg: "best_generated' \<in> set f" by simp
    show ?thesis
      using first_ranked [OF n bg ml] unfolding ti tm by simp
  qed
  from a b show ?thesis by blast
qed

theorem first_ranked_is_best_witness:
  "generate_and_filter_images Float32 (\<lambda>img. img) (\<lambda>ob g d. if ob = as_float g then 1 else 0)
      (replicate 10 [[9/10, 1/10], [1/10, 1/10]] @ [[[1/5, 4/5], [1/10, 1/10]]]) [[[0, 1], [0, 0]]] (5, 60) (1/2) 11 False
    = ([TotalValidLine 11],
       Inr (Some (replicate 10 [[1, 0], [0, 0]] @ [[[0, 1], [0, 0]]], [[0, 1], [0, 0]], [[0, 1], [0, 0]], Some 0, Finite 0,
                  [[0, 1], [0, 0]] # replicate 10 [[1, 0], [0, 0]], 0 # replicate 10 (1/2))))
   \<and> (0 # replicate 10 (1/2)) ! 0 = (0::rat)
   \<and> ([[0, 1], [0, 0]] # replicate 10 [[1, 0], [0, 0]]) ! 0 = [[0, 1], [0, 0::int]]
   \<and> mse_loop [[0, 1], [0, 0]] [[[1, 0], [0, 0]], [[0, 1], [0, 0]]] [] = Inr [1/2, 0]
   \<and> map (\<lambda>i. [[[1, 0], [0, 0]], [[0, 1], [0, 0::int]]] ! i) (top_indices 1 [1/2, 0]) ! 0 = [[0, 1], [0, 0]]"
proof -
  have run: "generate_and_filter_images Float32 (\<lambda>img. img) (\<lambda>ob g d. if ob = as_float g then 1 else 0)
      (replicate 10 [[9/10, 1/10], [1/10, 1/10]] @ [[[1/5, 4/5], [1/10, 1/10]]]) [[[0, 1], [0, 0]]] (5, 60) (1/2) 11 False
    = ([TotalValidLine 11],
       Inr (Some (replicate 10 [[1, 0], [0, 0]] @ [[[0, 1], [0, 0]]], [[0, 1], [0, 0]], [[0, 1], [0, 0]], Some 0, Finite 0,
                  [[0, 1], [0, 0]] # replicate 10 [[1, 0], [0, 0]], 0 # replicate 10 (1/2))))"
    by code_simp
  have loop: "mse_loop [[0, 1], [0, 0]] [[[1, 0], [0, 0]], [[0, 1], [0, 0]]] [] = Inr [1/2, 0]"
    by code_simp
  have one: "(1::int) \<le> 1" by simp
  have n: "(1::int) \<le> 11" by simp
  have mem: "[[0, 1], [0, 0::int]] \<in> set [[[1, 0], [0, 0]], [[0, 1], [0, 0]]]" by simp
  note top = first_ranked_is_best [THEN conjunct1, rule_format,
      OF conjI [OF one conjI [OF mem loop]]]
  note ret = first_ranked_is_best [THEN conjunct2, rule_format, OF conjI [OF n run]]
  from run ret top loop show ?thesis by blast
qed

end
